theory Spec2Isabelle
  imports Main
begin

section \<open>Python values and the library functions the program calls\<close>

text \<open>
  A Python \<open>str\<close> is a sequence of Unicode code points, so \<open>len\<close> is \<open>length\<close> and a
  character is its code point. \<open>u\<close> reads an ASCII literal; a character beyond ASCII is
  written as its code point (U+0131 is 305).
\<close>

type_synonym ustr = "nat list"

definition u :: "string \<Rightarrow> ustr" where
  "u s = map of_char s"

datatype py_error = TypeError | ValueError | OverflowError

text \<open>
  The values an element's field can hold (\<open>dict[str, Any]\<close> as a JSON-like value; tuples
  added because the source tests for them). The float type \<open>'f\<close> is left abstract.
\<close>

datatype 'f pyval =
    PNone
  | PBool bool
  | PInt int
  | PFloat 'f
  | PStr ustr
  | PList "'f pyval list"
  | PTuple "'f pyval list"
  | PDict "(ustr \<times> 'f pyval) list"

type_synonym 'f pydict = "(ustr \<times> 'f pyval) list"

text \<open>
  What the program takes from Python's runtime and its Unicode database, and does not
  define itself: \<open>unicodedata.normalize("NFC", _)\<close>, \<open>str.lower\<close>, the character classes
  behind \<open>str.isdigit\<close>, \<open>\d\<close> and \<open>\w\<close>, the case-insensitive match of \<open>re.IGNORECASE\<close>,
  \<open>str(_)\<close> of a value that is not a string, and the numeric conversions of \<open>int(_)\<close> and
  \<open>float(_)\<close>. Every function of the program that uses one of them takes the library
  as its first argument, and the theorems hold for every library unless they say
  otherwise.
\<close>

record 'f pylib =
  nfc :: "ustr \<Rightarrow> ustr"
  str_lower :: "ustr \<Rightarrow> ustr"
  is_digit :: "nat \<Rightarrow> bool"
  is_decimal :: "nat \<Rightarrow> bool"
  is_alnum :: "nat \<Rightarrow> bool"
  ci_eq :: "nat \<Rightarrow> nat \<Rightarrow> bool"
  py_str :: "'f pyval \<Rightarrow> ustr"
  int_of_str :: "ustr \<Rightarrow> int option"
  int_of_float :: "'f \<Rightarrow> py_error + int"
  float_of_int :: "int \<Rightarrow> 'f option"
  float_of_str :: "ustr \<Rightarrow> 'f option"
  float_nonzero :: "'f \<Rightarrow> bool"

text \<open>
  \<open>ci_eq L p c\<close>: the pattern character \<open>p\<close> matches the subject character \<open>c\<close> under
  \<open>re.IGNORECASE\<close>. \<open>int_of_str\<close> and \<open>float_of_str\<close> are \<open>None\<close> where Python raises
  ValueError, \<open>float_of_int\<close> where it raises OverflowError; \<open>int_of_float\<close> raises
  ValueError on NaN and OverflowError on an infinity.
\<close>

subsection \<open>Truthiness, \<open>or\<close>, \<open>dict.get\<close>, \<open>int\<close>, \<open>float\<close>, hashing\<close>

fun truthy :: "'f pylib \<Rightarrow> 'f pyval \<Rightarrow> bool" where
  "truthy L PNone = False"
| "truthy L (PBool b) = b"
| "truthy L (PInt n) = (n \<noteq> 0)"
| "truthy L (PFloat x) = float_nonzero L x"
| "truthy L (PStr s) = (s \<noteq> [])"
| "truthy L (PList xs) = (xs \<noteq> [])"
| "truthy L (PTuple xs) = (xs \<noteq> [])"
| "truthy L (PDict d) = (d \<noteq> [])"

definition py_or :: "'f pylib \<Rightarrow> 'f pyval \<Rightarrow> 'f pyval \<Rightarrow> 'f pyval" where
  "py_or L a b = (if truthy L a then a else b)"

definition dict_get :: "'f pydict \<Rightarrow> ustr \<Rightarrow> 'f pyval" where
  "dict_get d k = (case map_of d k of None \<Rightarrow> PNone | Some v \<Rightarrow> v)"

definition dict_get_default :: "'f pydict \<Rightarrow> ustr \<Rightarrow> 'f pyval \<Rightarrow> 'f pyval" where
  "dict_get_default d k dflt = (case map_of d k of None \<Rightarrow> dflt | Some v \<Rightarrow> v)"

fun py_int :: "'f pylib \<Rightarrow> 'f pyval \<Rightarrow> py_error + int" where
  "py_int L PNone = Inl TypeError"
| "py_int L (PBool b) = Inr (if b then 1 else 0)"
| "py_int L (PInt n) = Inr n"
| "py_int L (PFloat x) = int_of_float L x"
| "py_int L (PStr s) = (case int_of_str L s of None \<Rightarrow> Inl ValueError | Some n \<Rightarrow> Inr n)"
| "py_int L (PList xs) = Inl TypeError"
| "py_int L (PTuple xs) = Inl TypeError"
| "py_int L (PDict d) = Inl TypeError"

fun py_float :: "'f pylib \<Rightarrow> 'f pyval \<Rightarrow> py_error + 'f" where
  "py_float L PNone = Inl TypeError"
| "py_float L (PBool b) =
     (case float_of_int L (if b then 1 else 0) of None \<Rightarrow> Inl OverflowError | Some x \<Rightarrow> Inr x)"
| "py_float L (PInt n) =
     (case float_of_int L n of None \<Rightarrow> Inl OverflowError | Some x \<Rightarrow> Inr x)"
| "py_float L (PFloat x) = Inr x"
| "py_float L (PStr s) = (case float_of_str L s of None \<Rightarrow> Inl ValueError | Some x \<Rightarrow> Inr x)"
| "py_float L (PList xs) = Inl TypeError"
| "py_float L (PTuple xs) = Inl TypeError"
| "py_float L (PDict d) = Inl TypeError"

text \<open>A list or a dict is unhashable, and so is a tuple that holds one.\<close>

fun hashable :: "'f pyval \<Rightarrow> bool" where
  "hashable (PList xs) = False"
| "hashable (PDict d) = False"
| "hashable (PTuple xs) = list_all hashable xs"
| "hashable v = True"

subsection \<open>String operations\<close>

text \<open>The characters \<open>str.strip()\<close>, \<open>str.split()\<close> and \<open>\s\<close> treat as whitespace.\<close>

definition is_space :: "nat \<Rightarrow> bool" where
  "is_space c \<longleftrightarrow>
     (9 \<le> c \<and> c \<le> 13) \<or> (28 \<le> c \<and> c \<le> 32) \<or> c = 133 \<or> c = 160 \<or> c = 5760 \<or>
     (8192 \<le> c \<and> c \<le> 8202) \<or> c = 8232 \<or> c = 8233 \<or> c = 8239 \<or> c = 8287 \<or> c = 12288"

definition strip_chars :: "(nat \<Rightarrow> bool) \<Rightarrow> ustr \<Rightarrow> ustr" where
  "strip_chars p s = rev (dropWhile p (rev (dropWhile p s)))"

definition strip :: "ustr \<Rightarrow> ustr" where
  "strip s = strip_chars is_space s"

text \<open>\<open>s.split()\<close>: the maximal runs of characters that are not whitespace.\<close>

function split_ws :: "ustr \<Rightarrow> ustr list" where
  "split_ws [] = []"
| "split_ws (c # cs) =
     (if is_space c then split_ws cs
      else (c # takeWhile (\<lambda>x. \<not> is_space x) cs) # split_ws (dropWhile (\<lambda>x. \<not> is_space x) cs))"
  by pat_completeness auto
termination
  by (relation "measure length") (auto simp: less_Suc_eq_le length_dropWhile_le)

fun join :: "ustr \<Rightarrow> ustr list \<Rightarrow> ustr" where
  "join sep [] = []"
| "join sep [x] = x"
| "join sep (x # y # ys) = x @ sep @ join sep (y # ys)"

fun starts_with :: "ustr \<Rightarrow> ustr \<Rightarrow> bool" where
  "starts_with [] s = True"
| "starts_with (p # ps) [] = False"
| "starts_with (p # ps) (c # cs) = (p = c \<and> starts_with ps cs)"

text \<open>\<open>sub in s\<close> for strings.\<close>

fun contains :: "ustr \<Rightarrow> ustr \<Rightarrow> bool" where
  "contains sub [] = (sub = [])"
| "contains sub (c # cs) = (starts_with sub (c # cs) \<or> contains sub cs)"

text \<open>\<open>s.isdigit()\<close>: at least one character, and every character a digit.\<close>

definition isdigit :: "'f pylib \<Rightarrow> ustr \<Rightarrow> bool" where
  "isdigit L s \<longleftrightarrow> s \<noteq> [] \<and> list_all (is_digit L) s"

text \<open>\<open>str(n)\<close> of an integer, and the format \<open>{n:03d}\<close>.\<close>

fun digits :: "nat \<Rightarrow> ustr" where
  "digits n = (if n < 10 then [48 + n] else digits (n div 10) @ [48 + n mod 10])"

definition str_of_int :: "int \<Rightarrow> ustr" where
  "str_of_int n = (if n < 0 then 45 # digits (nat (- n)) else digits (nat n))"

definition zero_pad :: "nat \<Rightarrow> ustr \<Rightarrow> ustr" where
  "zero_pad w s = replicate (w - length s) 48 @ s"

definition fmt_03d :: "int \<Rightarrow> ustr" where
  "fmt_03d n = (if n < 0 then 45 # zero_pad 2 (digits (nat (- n))) else zero_pad 3 (digits (nat n)))"

declare digits.simps [simp del]

subsection \<open>Regular expressions\<close>

text \<open>
  The patterns of the program use literals, character classes, a class repeated between
  two bounds, sequence, alternation, \<open>\b\<close>, \<open>^\<close> and \<open>$\<close>. The program only asks whether
  a pattern matches (\<open>search\<close>, \<open>match\<close>), so the matcher returns every position at which
  a match of the pattern can end, and the order of the alternatives does not matter.
  A position is the character before it (\<open>None\<close> at the start) and the rest of the string.
\<close>

datatype rx =
    Lit ustr
  | LitI ustr
  | Cls "nat \<Rightarrow> bool"
  | Rep "nat \<Rightarrow> bool" nat "nat option"
  | Seq rx rx
  | Alt rx rx
  | WordB
  | Bos
  | Eos

type_synonym pos = "nat option \<times> ustr"

fun consume :: "(nat \<Rightarrow> nat \<Rightarrow> bool) \<Rightarrow> ustr \<Rightarrow> pos \<Rightarrow> pos list" where
  "consume eq [] st = [st]"
| "consume eq (p # ps) (prev, []) = []"
| "consume eq (p # ps) (prev, c # cs) = (if eq p c then consume eq ps (Some c, cs) else [])"

fun reps :: "(nat \<Rightarrow> bool) \<Rightarrow> nat \<Rightarrow> nat option \<Rightarrow> nat \<Rightarrow> pos \<Rightarrow> pos list" where
  "reps P lo hi k (prev, []) = (if lo \<le> k then [(prev, [])] else [])"
| "reps P lo hi k (prev, c # cs) =
     (if lo \<le> k then [(prev, c # cs)] else []) @
     (if P c \<and> (case hi of None \<Rightarrow> True | Some h \<Rightarrow> k < h)
      then reps P lo hi (Suc k) (Some c, cs) else [])"

text \<open>\<open>\w\<close>: alphanumeric or underscore. \<open>\b\<close> holds where exactly one side is a word character.\<close>

definition is_word :: "'f pylib \<Rightarrow> nat \<Rightarrow> bool" where
  "is_word L c \<longleftrightarrow> is_alnum L c \<or> c = 95"

definition word_boundary :: "'f pylib \<Rightarrow> pos \<Rightarrow> bool" where
  "word_boundary L st =
     ((case fst st of None \<Rightarrow> False | Some c \<Rightarrow> is_word L c) \<noteq>
      (case snd st of [] \<Rightarrow> False | c # cs \<Rightarrow> is_word L c))"

fun rx_ends :: "'f pylib \<Rightarrow> rx \<Rightarrow> pos \<Rightarrow> pos list" where
  "rx_ends L (Lit p) st = consume (=) p st"
| "rx_ends L (LitI p) st = consume (ci_eq L) p st"
| "rx_ends L (Cls P) st = reps P 1 (Some 1) 0 st"
| "rx_ends L (Rep P lo hi) st = reps P lo hi 0 st"
| "rx_ends L (Seq a b) st = concat (map (rx_ends L b) (rx_ends L a st))"
| "rx_ends L (Alt a b) st = rx_ends L a st @ rx_ends L b st"
| "rx_ends L WordB st = (if word_boundary L st then [st] else [])"
| "rx_ends L Bos st = (if fst st = None then [st] else [])"
| "rx_ends L Eos st = (if snd st = [] \<or> snd st = [10] then [st] else [])"

fun search_from :: "'f pylib \<Rightarrow> rx \<Rightarrow> nat option \<Rightarrow> ustr \<Rightarrow> bool" where
  "search_from L r prev [] = (rx_ends L r (prev, []) \<noteq> [])"
| "search_from L r prev (c # cs) = (rx_ends L r (prev, c # cs) \<noteq> [] \<or> search_from L r (Some c) cs)"

definition re_search :: "'f pylib \<Rightarrow> rx \<Rightarrow> ustr \<Rightarrow> bool" where
  "re_search L r s = search_from L r None s"

definition re_match :: "'f pylib \<Rightarrow> rx \<Rightarrow> ustr \<Rightarrow> bool" where
  "re_match L r s \<longleftrightarrow> rx_ends L r (None, s) \<noteq> []"

fun seqs :: "rx list \<Rightarrow> rx" where
  "seqs [] = Lit []"
| "seqs [r] = r"
| "seqs (r # rs) = Seq r (seqs rs)"

fun alts :: "rx list \<Rightarrow> rx" where
  "alts [] = Cls (\<lambda>c. False)"
| "alts [r] = r"
| "alts (r # rs) = Alt r (alts rs)"

text \<open>
  \<open>re.sub(r"[P]+", rep, s)\<close> for a character class \<open>P\<close>: every maximal run of characters
  of the class is replaced by \<open>rep\<close>.
\<close>

function sub_runs :: "(nat \<Rightarrow> bool) \<Rightarrow> ustr \<Rightarrow> ustr \<Rightarrow> ustr" where
  "sub_runs P rep [] = []"
| "sub_runs P rep (c # cs) =
     (if P c then rep @ sub_runs P rep (dropWhile P cs) else c # sub_runs P rep cs)"
  by pat_completeness auto
termination
  by (relation "measure (\<lambda>(P, rep, s). length s)") (auto simp: less_Suc_eq_le length_dropWhile_le)

section \<open>The classifier, the normalizer and the slugifier\<close>

datatype btype = Title | Paragraph | ListItem | Table | Header | Footer | Other

text \<open>
  \<open>_block_type\<close>: the lookup \<open>category in CATEGORY_TO_TYPE\<close> hashes the category, which
  raises TypeError on a list or a dict.
\<close>

definition CATEGORY_TO_TYPE :: "(ustr \<times> btype) list" where
  "CATEGORY_TO_TYPE =
     [(u ''Title'', Title), (u ''NarrativeText'', Paragraph), (u ''ListItem'', ListItem),
      (u ''Table'', Table), (u ''Header'', Header), (u ''Footer'', Footer)]"

definition block_type :: "'f pyval \<Rightarrow> py_error + btype" where
  "block_type category =
     (if \<not> hashable category then Inl TypeError
      else case category of
        PStr s \<Rightarrow> (case map_of CATEGORY_TO_TYPE s of Some t \<Rightarrow> Inr t | None \<Rightarrow> Inr Other)
      | _ \<Rightarrow> Inr Other)"

definition sentinel :: ustr where
  "sentinel = u ''basliksiz''"

text \<open>\<open>str.maketrans\<close> of the twelve Turkish letters and the space.\<close>

definition tr_map :: "(nat \<times> nat) list" where
  "tr_map =
     [(305, 105), (304, 73), (287, 103), (286, 71), (252, 117), (220, 85),
      (351, 115), (350, 83), (246, 111), (214, 79), (231, 99), (199, 67), (32, 95)]"

definition translate :: "(nat \<times> nat) list \<Rightarrow> ustr \<Rightarrow> ustr" where
  "translate m s = map (\<lambda>c. case map_of m c of None \<Rightarrow> c | Some d \<Rightarrow> d) s"

definition slug_char :: "nat \<Rightarrow> bool" where
  "slug_char c \<longleftrightarrow> (97 \<le> c \<and> c \<le> 122) \<or> (48 \<le> c \<and> c \<le> 57) \<or> c = 95"

definition slug :: "'f pylib \<Rightarrow> 'f pyval \<Rightarrow> ustr" where
  "slug L v =
     (case v of
        PStr t \<Rightarrow>
          if t = [] then sentinel
          else
            let s = str_lower L (translate tr_map (strip t));
                s = sub_runs (\<lambda>c. \<not> slug_char c) [95] s;
                s = strip_chars (\<lambda>c. c = 95) (sub_runs (\<lambda>c. c = 95) [95] s)
            in if s = [] then sentinel else s
      | _ \<Rightarrow> sentinel)"

definition normalize_text :: "'f pylib \<Rightarrow> 'f pyval \<Rightarrow> ustr" where
  "normalize_text L v =
     (case v of
        PStr t \<Rightarrow>
          if t = [] then []
          else
            let s = nfc L t;
                s = join [32] (split_ws s)
            in strip s
      | _ \<Rightarrow> [])"

fun hierarchy_level_fn :: "btype \<Rightarrow> int" where
  "hierarchy_level_fn Title = 1"
| "hierarchy_level_fn ListItem = 2"
| "hierarchy_level_fn Header = 4"
| "hierarchy_level_fn Footer = 4"
| "hierarchy_level_fn t = 3"

section \<open>The noise classifier\<close>

definition month_names :: "ustr list" where
  "month_names =
     [u ''ocak'', [351] @ u ''ubat'', u ''mart'', u ''nisan'', u ''may'' @ [305] @ u ''s'',
      u ''haziran'', u ''temmuz'', u ''a'' @ [287] @ u ''ustos'', u ''eyl'' @ [252] @ u ''l'',
      u ''ekim'', u ''kas'' @ [305] @ u ''m'', u ''aral'' @ [305] @ u ''k'',
      u ''january'', u ''february'', u ''march'', u ''april'', u ''may'', u ''june'', u ''july'',
      u ''august'', u ''september'', u ''october'', u ''november'', u ''december'']"

text \<open>
  \<open>_DATE_PATTERN\<close>, \<open>_COPYRIGHT_PATTERN\<close> and \<open>_URL_PATTERN\<close> are compiled with
  \<open>re.IGNORECASE\<close>: their literals are \<open>LitI\<close>. \<open>_TOC_LINE_PATTERN\<close> is not. Code points:
  46 is the period, 47 the slash, 45 the hyphen, 41 the closing parenthesis, 169 the
  copyright sign, 115 the letter s, 10 the newline.
\<close>

definition DATE_PATTERN :: "'f pylib \<Rightarrow> rx" where
  "DATE_PATTERN L =
     (let d = is_decimal L; dot_slash = (\<lambda>c. c = 46 \<or> c = 47); dash_slash = (\<lambda>c. c = 45 \<or> c = 47)
      in seqs [WordB,
           alts [seqs [Rep d 1 (Some 2), Cls dot_slash, Rep d 1 (Some 2), Cls dot_slash, Rep d 2 (Some 4)],
                 seqs [Rep d 4 (Some 4), Cls dash_slash, Rep d 1 (Some 2), Cls dash_slash, Rep d 1 (Some 2)],
                 seqs [Rep d 1 (Some 2), Rep is_space 1 None, alts (map LitI month_names),
                       Rep is_space 1 None, Rep d 2 (Some 4)]],
           WordB])"

definition COPYRIGHT_PATTERN :: "'f pylib \<Rightarrow> rx" where
  "COPYRIGHT_PATTERN L =
     alts [LitI [169], LitI (u ''copyright''), LitI (u ''t'' @ [252] @ u ''m haklar'' @ [305]),
           LitI (u ''all rights reserved''),
           seqs [LitI [169], Rep is_space 0 None, Rep (is_decimal L) 4 (Some 4)],
           LitI (u ''her hakk'' @ [305])]"

definition URL_PATTERN :: "'f pylib \<Rightarrow> rx" where
  "URL_PATTERN L =
     alts [seqs [LitI (u ''http''), Rep (ci_eq L 115) 0 (Some 1), LitI (u ''://'')],
           LitI (u ''www.''),
           seqs [LitI (u ''.com''), WordB],
           seqs [LitI (u ''.org''), WordB],
           seqs [LitI (u ''.net''), WordB]]"

definition TOC_LINE_PATTERN :: "'f pylib \<Rightarrow> rx" where
  "TOC_LINE_PATTERN L =
     seqs [Bos, Rep is_space 0 None, Rep (is_decimal L) 1 None, Cls (\<lambda>c. c = 46 \<or> c = 41),
           Rep is_space 0 None, Rep (\<lambda>c. c \<noteq> 10) 1 (Some 100), Eos]"

definition icindekiler :: ustr where
  "icindekiler = u ''i'' @ [231] @ u ''indekiler''"

definition ICINDEKILER_MARKERS :: "ustr list" where
  "ICINDEKILER_MARKERS = [icindekiler, u ''contents'', u ''table of contents'', u ''index'']"

definition UI_INSTRUCTION_MARKERS :: "ustr list" where
  "UI_INSTRUCTION_MARKERS =
     [u ''t'' @ [305] @ u ''klay'' @ [305] @ u ''n'', u ''t'' @ [305] @ u ''klan'' @ [305] @ u ''r'',
      u ''t'' @ [305] @ u ''klanacak'', u ''butona'', u ''butonuna'', u ''men'' @ [252] @ u ''den'',
      u ''se'' @ [231] @ u ''in'', u ''girin'',
      u ''ekran a'' @ [231, 305] @ u ''l'' @ [305] @ u ''r'', u ''a'' @ [231, 305] @ u ''l'' @ [305] @ u ''r'',
      u ''penceresi a'' @ [231, 305] @ u ''l'' @ [305] @ u ''r'',
      u ''g'' @ [246] @ u ''r'' @ [252] @ u ''nt'' @ [252] @ u ''lenir'',
      u ''g'' @ [246] @ u ''r'' @ [252] @ u ''n'' @ [252] @ u ''r'',
      u ''sayfa a'' @ [231, 305] @ u ''l'' @ [305] @ u ''r'',
      u ''click'', u ''select'', u ''choose'', u ''enter'', u ''opens'', u ''displayed'', u ''shown'']"

text \<open>\<open>sum(1 for c in t if c in " .,;")\<close>: the spaces, periods, commas and semicolons of \<open>t\<close>.\<close>

definition separator_count :: "ustr \<Rightarrow> nat" where
  "separator_count t = length (filter (\<lambda>c. c \<in> set (u '' .,;'')) t)"

definition is_noise_fn :: "'f pylib \<Rightarrow> btype \<Rightarrow> ustr \<Rightarrow> ustr \<Rightarrow> bool" where
  "is_noise_fn L bt text section_title =
     (if bt = Footer \<or> bt = Header then True
      else
        let t = strip text in
        if t = [] then True
        else if length t \<le> 2 \<and> t \<in> set [u ''.'', u ''..'', u ''-'', [8211], [8212]] then True
        else if isdigit L t then True
        else
          let lower = str_lower L t in
          if re_search L (DATE_PATTERN L) t \<and> length t < 80 then True
          else if re_search L (COPYRIGHT_PATTERN L) t then True
          else if re_search L (URL_PATTERN L) t \<and> separator_count t < 3 then True
          else if section_title \<noteq> [] \<and> str_lower L (strip section_title) \<in> set ICINDEKILER_MARKERS
            then True
          else if contains icindekiler lower \<and> length t < 150 then True
          else if re_match L (TOC_LINE_PATTERN L) t \<and> length t < 120 then True
          else if length t < 120 \<and> list_ex (\<lambda>m. contains m lower) UI_INSTRUCTION_MARKERS then True
          else False)"

section \<open>The structure builder\<close>

record 'f block =
  block_id :: ustr
  btype :: btype
  btext :: ustr
  page :: int
  bbox :: "'f list option"
  section_id :: ustr
  section_title :: ustr
  hierarchy_level :: int
  chunk_id :: ustr
  block_index_in_page :: int
  is_noise :: bool
  normalized_text :: ustr

record 'f result =
  document_type :: ustr
  blocks :: "'f block list"

text \<open>The conversions of a list in order; the first one that raises ends the evaluation.\<close>

fun float_list :: "'f pylib \<Rightarrow> 'f pyval list \<Rightarrow> py_error + 'f list" where
  "float_list L [] = Inr []"
| "float_list L (v # vs) =
     (case py_float L v of
        Inl e \<Rightarrow> Inl e
      | Inr x \<Rightarrow> (case float_list L vs of Inl e \<Rightarrow> Inl e | Inr xs \<Rightarrow> Inr (x # xs)))"

definition bbox_of_dict :: "'f pylib \<Rightarrow> 'f pydict \<Rightarrow> py_error + 'f list option" where
  "bbox_of_dict L d =
     (let x1 = py_or L (dict_get d (u ''x1'')) (dict_get d (u ''left''));
          y1 = py_or L (dict_get d (u ''y1'')) (dict_get d (u ''top''));
          x2 = py_or L (dict_get d (u ''x2'')) (dict_get d (u ''right''));
          y2 = py_or L (dict_get d (u ''y2'')) (dict_get d (u ''bottom''))
      in if PNone \<notin> set [x1, y1, x2, y2]
         then (case float_list L [x1, y1, x2, y2] of Inl e \<Rightarrow> Inl e | Inr xs \<Rightarrow> Inr (Some xs))
         else Inr None)"

definition bbox_of_seq :: "'f pylib \<Rightarrow> 'f pyval list \<Rightarrow> py_error + 'f list option" where
  "bbox_of_seq L xs =
     (if 4 \<le> length xs
      then (case float_list L (take 4 xs) of Inl e \<Rightarrow> Inl e | Inr ys \<Rightarrow> Inr (Some ys))
      else Inr None)"

definition bbox_from_element :: "'f pylib \<Rightarrow> 'f pydict \<Rightarrow> py_error + 'f list option" where
  "bbox_from_element L el =
     (let bb = py_or L (py_or L (dict_get el (u ''bbox'')) (dict_get el (u ''coordinates'')))
                 (dict_get el (u ''bounding_box''))
      in case bb of
           PNone \<Rightarrow> Inr None
         | PList xs \<Rightarrow> bbox_of_seq L xs
         | PTuple xs \<Rightarrow> bbox_of_seq L xs
         | PDict d \<Rightarrow> bbox_of_dict L d
         | _ \<Rightarrow> Inr None)"

text \<open>
  The state of the pass of \<open>extract_structure\<close>: the blocks appended so far, the current
  section, and the two counters.
\<close>

record 'f builder =
  acc :: "'f block list"
  current_section_id :: ustr
  current_section_title :: ustr
  page_counter :: "int \<rightharpoonup> int"
  section_block_index :: "ustr \<rightharpoonup> int"

text \<open>\<open>int(page)\<close> inside \<open>try ... except (TypeError, ValueError)\<close>: any other error is raised.\<close>

definition page_of :: "'f pylib \<Rightarrow> 'f pyval \<Rightarrow> py_error + int" where
  "page_of L v =
     (case py_int L v of
        Inl TypeError \<Rightarrow> Inr 0
      | Inl ValueError \<Rightarrow> Inr 0
      | Inl e \<Rightarrow> Inl e
      | Inr n \<Rightarrow> Inr n)"

text \<open>
  The body of the loop for the element at index \<open>i\<close>, in two parts. The second part, from
  \<open>if block_type == "title"\<close> to \<open>blocks.append\<close>, takes the fields the first part read.
\<close>

definition append_block ::
  "'f pylib \<Rightarrow> nat \<Rightarrow> btype \<Rightarrow> ustr \<Rightarrow> int \<Rightarrow> 'f list option \<Rightarrow> 'f builder \<Rightarrow> 'f builder" where
  "append_block L i bt txt p bb st =
     (let sid = (if bt = Title then slug L (PStr txt) else current_section_id st);
          stitle = (if bt = Title then strip txt else current_section_title st);
          idx_in_section = (case section_block_index st sid of None \<Rightarrow> 0 | Some n \<Rightarrow> n) + 1;
          cid = u ''page_'' @ str_of_int p @ u ''_section_'' @ sid @ u ''_'' @ fmt_03d idx_in_section;
          idx_in_page = (case page_counter st p of None \<Rightarrow> 0 | Some n \<Rightarrow> n) + 1;
          norm_text = normalize_text L (PStr txt);
          noise = is_noise_fn L bt txt stitle
      in \<lparr>acc = acc st @
                [\<lparr>block_id = u ''block_'' @ digits i,
                  btype = bt,
                  btext = txt,
                  page = p,
                  bbox = bb,
                  section_id = (if sid = [] then sentinel else sid),
                  section_title = (if stitle = [] then [] else stitle),
                  hierarchy_level = hierarchy_level_fn bt,
                  chunk_id = cid,
                  block_index_in_page = idx_in_page,
                  is_noise = noise,
                  normalized_text = norm_text\<rparr>],
            current_section_id = sid,
            current_section_title = stitle,
            page_counter = (page_counter st)(p \<mapsto> idx_in_page),
            section_block_index = (section_block_index st)(sid \<mapsto> idx_in_section)\<rparr>)"

definition element_step :: "'f pylib \<Rightarrow> nat \<Rightarrow> 'f pydict \<Rightarrow> 'f builder \<Rightarrow> py_error + 'f builder" where
  "element_step L i el st =
     (let category = py_or L (py_or L (dict_get el (u ''category'')) (dict_get el (u ''type''))) (PStr []);
          category = (case category of PStr s \<Rightarrow> PStr (strip s) | _ \<Rightarrow> category)
      in case block_type category of
           Inl e \<Rightarrow> Inl e
         | Inr bt \<Rightarrow>
             let t = dict_get_default el (u ''text'') (PStr []);
                 t = (if t = PNone then PStr [] else t);
                 txt = (case t of PStr s \<Rightarrow> s | _ \<Rightarrow> py_str L t);
                 pg = py_or L (dict_get el (u ''page_number'')) (dict_get el (u ''page''));
                 pg = (if pg = PNone then PInt 0 else pg)
             in (case page_of L pg of
                   Inl e \<Rightarrow> Inl e
                 | Inr p \<Rightarrow>
                     (case bbox_from_element L el of
                        Inl e \<Rightarrow> Inl e
                      | Inr bb \<Rightarrow> Inr (append_block L i bt txt p bb st))))"

fun element_loop :: "'f pylib \<Rightarrow> nat \<Rightarrow> 'f pydict list \<Rightarrow> 'f builder \<Rightarrow> py_error + 'f builder" where
  "element_loop L i [] st = Inr st"
| "element_loop L i (el # els) st =
     (case element_step L i el st of
        Inl e \<Rightarrow> Inl e
      | Inr st' \<Rightarrow> element_loop L (Suc i) els st')"

definition init_builder :: "'f builder" where
  "init_builder =
     \<lparr>acc = [], current_section_id = sentinel, current_section_title = [],
      page_counter = Map.empty, section_block_index = Map.empty\<rparr>"

section \<open>The boilerplate detector\<close>

text \<open>
  \<open>text_to_indices\<close> is a dict in insertion order: an association list with one entry
  for each key. \<open>text_to_indices[nt].append(idx)\<close>:
\<close>

fun add_index :: "(ustr \<times> nat list) list \<Rightarrow> ustr \<Rightarrow> nat \<Rightarrow> (ustr \<times> nat list) list" where
  "add_index [] k i = [(k, [i])]"
| "add_index ((k', is) # g) k i =
     (if k' = k then (k', is @ [i]) # g else (k', is) # add_index g k i)"

fun group_loop :: "'f block list \<Rightarrow> nat \<Rightarrow> (ustr \<times> nat list) list \<Rightarrow> (ustr \<times> nat list) list" where
  "group_loop [] idx g = g"
| "group_loop (b # bs) idx g =
     (let nt = normalized_text b
      in if 25 \<le> length nt then group_loop bs (Suc idx) (add_index g nt idx)
         else group_loop bs (Suc idx) g)"

definition set_noise :: "nat \<Rightarrow> 'f block list \<Rightarrow> 'f block list" where
  "set_noise i bs = bs[i := (bs ! i)\<lparr>is_noise := True\<rparr>]"

fun mark_loop :: "(ustr \<times> nat list) list \<Rightarrow> 'f block list \<Rightarrow> 'f block list" where
  "mark_loop [] bs = bs"
| "mark_loop ((nt, indices) # g) bs =
     (let pages = set (map (\<lambda>i. page (bs ! i)) indices)
      in if 3 \<le> card pages then mark_loop g (fold set_noise indices bs)
         else mark_loop g bs)"

definition mark_boilerplate_noise :: "'f block list \<Rightarrow> 'f block list" where
  "mark_boilerplate_noise bs = mark_loop (group_loop bs 0 []) bs"

definition extract_structure :: "'f pylib \<Rightarrow> 'f pydict list \<Rightarrow> py_error + 'f result" where
  "extract_structure L elements =
     (case element_loop L 0 elements init_builder of
        Inl e \<Rightarrow> Inl e
      | Inr st \<Rightarrow> Inr \<lparr>document_type = u ''unknown'', blocks = mark_boilerplate_noise (acc st)\<rparr>)"

section \<open>The chunk assembler\<close>

definition should_discard_toc :: "'f pylib \<Rightarrow> 'f block \<Rightarrow> bool" where
  "should_discard_toc L b =
     (if btype b \<noteq> Other then False
      else
        let t = strip (btext b) in
        if t = [] then True
        else if isdigit L t then True
        else
          let lower = str_lower L t in
          if contains icindekiler lower \<or> contains (u ''contents'') lower then True
          else if re_search L (Rep (\<lambda>c. c = 46) 4 None) t then True
          else False)"

record chunk =
  c_title :: ustr
  c_content :: ustr
  c_page :: int
  c_section_id :: ustr
  c_section_title :: ustr
  c_chunk_id :: ustr
  c_block_ids :: "ustr list"

definition content_types :: "btype set" where
  "content_types = {Paragraph, ListItem, Table}"

definition skipped :: "'f pylib \<Rightarrow> 'f block \<Rightarrow> bool" where
  "skipped L b \<longleftrightarrow> is_noise b \<or> should_discard_toc L b"

text \<open>
  The inner loop \<open>while j < len(blocks)\<close> over the blocks that follow the anchor: what it
  appends to \<open>content_parts\<close> and to \<open>block_ids\<close>, and the blocks from index \<open>j\<close> on when it
  ends (empty, or starting with a title).
\<close>

fun collect :: "'f pylib \<Rightarrow> 'f block list \<Rightarrow> ustr list \<times> ustr list \<times> 'f block list" where
  "collect L [] = ([], [], [])"
| "collect L (nb # rest) =
     (if btype nb = Title then ([], [], nb # rest)
      else if skipped L nb then collect L rest
      else if btype nb \<in> content_types then
        (case collect L rest of
           (parts, ids, rest') \<Rightarrow> (strip (btext nb) # parts, block_id nb # ids, rest'))
      else collect L rest)"

text \<open>The chunk appended for the anchor \<open>b\<close>; the parts are joined by two newlines.\<close>

definition make_chunk :: "ustr \<Rightarrow> ustr list \<Rightarrow> 'f block \<Rightarrow> ustr list \<Rightarrow> chunk" where
  "make_chunk title_text content_parts b ids =
     \<lparr>c_title = title_text,
      c_content = join [10, 10] content_parts,
      c_page = page b,
      c_section_id = section_id b,
      c_section_title = section_title b,
      c_chunk_id = chunk_id b,
      c_block_ids = ids\<rparr>"

lemma collect_length: "length (snd (snd (collect L bs))) \<le> length bs"
  by (induction bs) (auto split: prod.splits)

text \<open>
  The outer loop \<open>while i < len(blocks)\<close>, on the blocks from index \<open>i\<close> on. The cursor
  only moves forward: \<open>i += 1\<close> is the tail of the list, \<open>i = j\<close> what \<open>collect\<close> left.
\<close>

function chunk_loop :: "'f pylib \<Rightarrow> 'f block list \<Rightarrow> chunk list" where
  "chunk_loop L [] = []"
| "chunk_loop L (b # rest) =
     (if skipped L b then chunk_loop L rest
      else if btype b = Title then
        (let title_text = strip (btext b)
         in if length title_text < 4 \<or> (32 \<notin> set title_text \<and> length title_text < 20)
            then chunk_loop L rest
            else
              (let content_parts = fst (collect L rest);
                   ids = block_id b # fst (snd (collect L rest))
               in (if content_parts \<noteq> [] then [make_chunk title_text content_parts b ids] else []) @
                  chunk_loop L (snd (snd (collect L rest)))))
      else if btype b \<in> content_types \<and> \<not> skipped L b then
        (let content_parts = strip (btext b) # fst (collect L rest);
             ids = block_id b # fst (snd (collect L rest))
         in make_chunk [] content_parts b ids # chunk_loop L (snd (snd (collect L rest))))
      else chunk_loop L rest)"
  by pat_completeness auto
termination
  by (relation "measure (\<lambda>(L, bs). length bs)") (auto simp: less_Suc_eq_le collect_length)

definition get_embedding_chunks :: "'f pylib \<Rightarrow> 'f result \<Rightarrow> chunk list" where
  "get_embedding_chunks L res = chunk_loop L (blocks res)"

section \<open>A library for ASCII and the Turkish letters\<close>

text \<open>
  The examples are evaluated with this library. On strings over ASCII and the twelve
  Turkish letters of \<open>tr_map\<close> its string functions are CPython's: such a string is
  its own NFC form; \<open>str.lower\<close> maps a capital to its small letter and U+0130 to
  \<open>i\<close> followed by U+0307; the digits are \<open>0\<close> to \<open>9\<close>; \<open>re.IGNORECASE\<close> compares
  the simple lower-case forms and lets the dotted and dotless \<open>i\<close> match each other. The
  floats of this library are the integral ones, written as integers, and \<open>str(_)\<close> is
  given for \<open>None\<close>, booleans and integers; the examples evaluate no other conversion.
\<close>

definition turkish_letters :: "nat list" where
  "turkish_letters = [199, 214, 220, 231, 246, 252, 286, 287, 304, 305, 350, 351]"

definition simple_lower :: "nat \<Rightarrow> nat" where
  "simple_lower c =
     (if 65 \<le> c \<and> c \<le> 90 then c + 32
      else if c = 199 \<or> c = 214 \<or> c = 220 then c + 32
      else if c = 286 \<or> c = 350 then c + 1
      else if c = 304 then 105
      else c)"

definition lower_char :: "nat \<Rightarrow> ustr" where
  "lower_char c = (if c = 304 then [105, 775] else [simple_lower c])"

definition ascii_digit :: "nat \<Rightarrow> bool" where
  "ascii_digit c \<longleftrightarrow> 48 \<le> c \<and> c \<le> 57"

definition tr_alnum :: "nat \<Rightarrow> bool" where
  "tr_alnum c \<longleftrightarrow>
     ascii_digit c \<or> (65 \<le> c \<and> c \<le> 90) \<or> (97 \<le> c \<and> c \<le> 122) \<or> c \<in> set turkish_letters"

definition tr_ci_eq :: "nat \<Rightarrow> nat \<Rightarrow> bool" where
  "tr_ci_eq p c \<longleftrightarrow>
     simple_lower c = simple_lower p \<or>
     (simple_lower p \<in> {105, 305} \<and> simple_lower c \<in> {105, 305})"

definition parse_digits :: "ustr \<Rightarrow> int option" where
  "parse_digits s =
     (if s \<noteq> [] \<and> list_all ascii_digit s
      then Some (foldl (\<lambda>n c. 10 * n + (int c - 48)) 0 s) else None)"

fun tr_str :: "int pyval \<Rightarrow> ustr" where
  "tr_str PNone = u ''None''"
| "tr_str (PBool b) = (if b then u ''True'' else u ''False'')"
| "tr_str (PInt n) = str_of_int n"
| "tr_str v = []"

definition tr_lib :: "int pylib" where
  "tr_lib =
     \<lparr>nfc = (\<lambda>s. s),
      str_lower = (\<lambda>s. concat (map lower_char s)),
      is_digit = ascii_digit,
      is_decimal = ascii_digit,
      is_alnum = tr_alnum,
      ci_eq = tr_ci_eq,
      py_str = tr_str,
      int_of_str = parse_digits,
      int_of_float = (\<lambda>x. Inr x),
      float_of_int = (\<lambda>n. Some n),
      float_of_str = parse_digits,
      float_nonzero = (\<lambda>x. x \<noteq> 0)\<rparr>"

section \<open>Notions used in the statements and their proofs\<close>

text \<open>
  \<open>mark_set S bs\<close> sets the noise flag of the blocks whose index is in \<open>S\<close> and changes
  nothing else; the boilerplate pass is shown to be one such marking.
\<close>

definition mark_set :: "nat set \<Rightarrow> 'f block list \<Rightarrow> 'f block list" where
  "mark_set S bs = map (\<lambda>j. if j \<in> S then (bs ! j)\<lparr>is_noise := True\<rparr> else bs ! j) [0..<length bs]"

text \<open>The indices stored under a key of \<open>text_to_indices\<close>.\<close>

definition idxs :: "(ustr \<times> nat list) list \<Rightarrow> ustr \<Rightarrow> nat set" where
  "idxs g k = (case map_of g k of None \<Rightarrow> {} | Some js \<Rightarrow> set js)"

definition groups_in_range :: "(ustr \<times> nat list) list \<Rightarrow> nat \<Rightarrow> bool" where
  "groups_in_range g n \<longleftrightarrow> (\<forall>(k, js) \<in> set g. set js \<subseteq> {..<n})"

definition pages_of :: "'f block list \<Rightarrow> nat list \<Rightarrow> int set" where
  "pages_of bs js = set (map (\<lambda>i. page (bs ! i)) js)"

definition flagged :: "(ustr \<times> nat list) list \<Rightarrow> 'f block list \<Rightarrow> nat set" where
  "flagged g bs = (\<Union>(k, js) \<in> set g. if 3 \<le> card (pages_of bs js) then set js else {})"

text \<open>Blocks for the examples: an annotated block with the given type, text, page and flag.\<close>

definition mk_block :: "nat \<Rightarrow> btype \<Rightarrow> ustr \<Rightarrow> int \<Rightarrow> bool \<Rightarrow> int block" where
  "mk_block i bt txt p noise =
     \<lparr>block_id = u ''block_'' @ digits i, btype = bt, btext = txt, page = p, bbox = None,
      section_id = sentinel, section_title = [], hierarchy_level = hierarchy_level_fn bt,
      chunk_id = [], block_index_in_page = 1, is_noise = noise, normalized_text = txt\<rparr>"

text \<open>One text on three pages, another on two.\<close>

definition repeated_blocks :: "int block list" where
  "repeated_blocks =
     [mk_block 0 Paragraph (u ''Acme Corp internal use only'') 1 False,
      mk_block 1 Paragraph (u ''Acme Corp internal use only'') 2 False,
      mk_block 2 Paragraph (u ''Acme Corp internal use only'') 3 False,
      mk_block 3 Paragraph (u ''Quarterly results at a glance'') 1 False,
      mk_block 4 Paragraph (u ''Quarterly results at a glance'') 2 False]"

definition title_headed :: "'f block list \<Rightarrow> bool" where
  "title_headed zs \<longleftrightarrow> zs = [] \<or> btype (hd zs) = Title"

fun members :: "'f pylib \<Rightarrow> 'f block list \<Rightarrow> 'f block list" where
  "members L [] = []"
| "members L (nb # rest) =
     (if btype nb = Title then []
      else if skipped L nb then members L rest
      else if btype nb \<in> content_types then nb # members L rest
      else members L rest)"

definition built_from :: "'f pylib \<Rightarrow> 'f block list \<Rightarrow> chunk \<Rightarrow> bool" where
  "built_from L bs c \<longleftrightarrow>
     (\<exists>ms. ms \<noteq> [] \<and> set ms \<subseteq> set bs \<and>
        (\<forall>b \<in> set ms. \<not> is_noise b \<and> \<not> should_discard_toc L b) \<and>
        c_block_ids c = map block_id ms \<and>
        (c_title c = [] \<and> c_content c = join [10, 10] (map (\<lambda>b. strip (btext b)) ms) \<or>
         c_title c = strip (btext (hd ms)) \<and>
         c_content c = join [10, 10] (map (\<lambda>b. strip (btext b)) (tl ms))))"

definition report_blocks :: "int block list" where
  "report_blocks =
     [mk_block 0 Title (u ''Genel Bilgiler'') 1 False,
      mk_block 1 Paragraph (u ''Ilk paragraf.'') 1 False,
      mk_block 2 Paragraph (u ''12/05/2023'') 1 True,
      mk_block 3 Other (u ''3. Sonuc ..................... 45'') 1 False,
      mk_block 4 Title (u ''Kaynaklar ve Ekler'') 2 False,
      mk_block 5 Footer (u ''Sayfa 2'') 2 True,
      mk_block 6 Other (u ''17'') 2 False]"

definition report_chunk :: chunk where
  "report_chunk =
     \<lparr>c_title = u ''Genel Bilgiler'', c_content = u ''Ilk paragraf.'', c_page = 1,
      c_section_id = sentinel, c_section_title = [], c_chunk_id = [],
      c_block_ids = [u ''block_0'', u ''block_1'']\<rparr>"

definition nearest_title :: "'f block list \<Rightarrow> nat \<Rightarrow> 'f block option" where
  "nearest_title bs i =
     (case filter (\<lambda>b. btype b = Title) (take (Suc i) bs) of [] \<Rightarrow> None | ts \<Rightarrow> Some (last ts))"

definition titles_upto :: "'f block list \<Rightarrow> nat \<Rightarrow> ustr list" where
  "titles_upto bs n = map btext (filter (\<lambda>b. btype b = Title) (take n bs))"

definition cursor_for :: "'f pylib \<Rightarrow> ustr list \<Rightarrow> ustr \<times> ustr" where
  "cursor_for L ts = (if ts = [] then (sentinel, []) else (slug L (PStr (last ts)), strip (last ts)))"

definition sections_ok :: "'f pylib \<Rightarrow> 'f block list \<Rightarrow> bool" where
  "sections_ok L bs \<longleftrightarrow>
     (\<forall>i < length bs. (section_id (bs ! i), section_title (bs ! i)) = cursor_for L (titles_upto bs (Suc i)))"

definition builder_inv :: "'f pylib \<Rightarrow> 'f builder \<Rightarrow> bool" where
  "builder_inv L st \<longleftrightarrow>
     sections_ok L (acc st) \<and>
     (current_section_id st, current_section_title st) = cursor_for L (titles_upto (acc st) (length (acc st)))"

definition example_elements :: "int pydict list" where
  "example_elements =
     [[(u ''category'', PStr (u ''Title'')), (u ''text'', PStr (u ''Giri'' @ [351])), (u ''page_number'', PInt 1)],
      [(u ''category'', PStr (u ''NarrativeText'')), (u ''text'', PStr (u ''Bu bir paragraf.'')),
       (u ''page_number'', PInt 1)]]"

definition example_blocks :: "int block list" where
  "example_blocks =
     [\<lparr>block_id = u ''block_0'', btype = Title, btext = u ''Giri'' @ [351], page = 1, bbox = None,
       section_id = u ''giris'', section_title = u ''Giri'' @ [351], hierarchy_level = 1,
       chunk_id = u ''page_1_section_giris_001'', block_index_in_page = 1, is_noise = False,
       normalized_text = u ''Giri'' @ [351]\<rparr>,
      \<lparr>block_id = u ''block_1'', btype = Paragraph, btext = u ''Bu bir paragraf.'', page = 1, bbox = None,
       section_id = u ''giris'', section_title = u ''Giri'' @ [351], hierarchy_level = 3,
       chunk_id = u ''page_1_section_giris_002'', block_index_in_page = 2, is_noise = False,
       normalized_text = u ''Bu bir paragraf.''\<rparr>]"

definition blank_title_elements :: "int pydict list" where
  "blank_title_elements =
     [[(u ''category'', PStr (u ''NarrativeText'')), (u ''text'', PStr (u ''Bu bir paragraf.'')),
       (u ''page_number'', PInt 1)],
      [(u ''category'', PStr (u ''Title'')), (u ''text'', PStr (u ''   '')), (u ''page_number'', PInt 1)],
      [(u ''category'', PStr (u ''NarrativeText'')), (u ''text'', PStr (u ''Bu bir paragraf.'')),
       (u ''page_number'', PInt 2)]]"

definition blank_title_blocks :: "int block list" where
  "blank_title_blocks =
     [\<lparr>block_id = u ''block_0'', btype = Paragraph, btext = u ''Bu bir paragraf.'', page = 1, bbox = None,
       section_id = u ''basliksiz'', section_title = [], hierarchy_level = 3,
       chunk_id = u ''page_1_section_basliksiz_001'', block_index_in_page = 1, is_noise = False,
       normalized_text = u ''Bu bir paragraf.''\<rparr>,
      \<lparr>block_id = u ''block_1'', btype = Title, btext = u ''   '', page = 1, bbox = None,
       section_id = u ''basliksiz'', section_title = [], hierarchy_level = 1,
       chunk_id = u ''page_1_section_basliksiz_002'', block_index_in_page = 2, is_noise = True,
       normalized_text = []\<rparr>,
      \<lparr>block_id = u ''block_2'', btype = Paragraph, btext = u ''Bu bir paragraf.'', page = 2, bbox = None,
       section_id = u ''basliksiz'', section_title = [], hierarchy_level = 3,
       chunk_id = u ''page_2_section_basliksiz_003'', block_index_in_page = 1, is_noise = False,
       normalized_text = u ''Bu bir paragraf.''\<rparr>]"

definition bare_link :: ustr where
  "bare_link = u ''www.example.com''"

definition nested_link :: ustr where
  "nested_link = u ''www.a.example.com''"

section \<open>Properties of the program\<close>

subsection \<open>The boilerplate pass\<close>

lemma length_mark_set [simp]: "length (mark_set S bs) = length bs"
  by (simp add: mark_set_def)

lemma nth_mark_set [simp]:
  "j < length bs \<Longrightarrow> mark_set S bs ! j = (if j \<in> S then (bs ! j)\<lparr>is_noise := True\<rparr> else bs ! j)"
  by (simp add: mark_set_def)

lemma mark_set_empty [simp]: "mark_set {} bs = bs"
  by (rule nth_equalityI) simp_all

lemma mark_set_mark_set: "mark_set A (mark_set B bs) = mark_set (A \<union> B) bs"
  by (rule nth_equalityI) auto

lemma set_noise_mark_set: "set_noise i bs = mark_set {i} bs"
  unfolding set_noise_def
  by (rule nth_equalityI) (auto simp: nth_list_update)

lemma fold_set_noise: "fold set_noise js bs = mark_set (set js) bs"
proof (induction js arbitrary: bs)
  case Nil
  show ?case by simp
next
  case (Cons i js)
  have "fold set_noise (i # js) bs = mark_set (set js) (mark_set {i} bs)"
    by (simp add: Cons.IH set_noise_mark_set)
  also have "\<dots> = mark_set (set (i # js)) bs"
    by (simp add: mark_set_mark_set Un_commute)
  finally show ?case .
qed

lemma idxs_Nil [simp]: "idxs [] k = {}"
  by (simp add: idxs_def)

lemma idxs_Cons [simp]: "idxs ((k', js) # g) k = (if k = k' then set js else idxs g k)"
  by (simp add: idxs_def)

lemma idxs_add_index: "idxs (add_index g k i) k' = (if k' = k then insert i (idxs g k) else idxs g k')"
proof (induction g k i arbitrary: k' rule: add_index.induct)
  case (1 k i)
  show ?case by simp
next
  case (2 k'' js g k i)
  show ?case
  proof (cases "k'' = k")
    case True
    then show ?thesis by simp
  next
    case False
    then show ?thesis by (simp add: "2.IH")
  qed
qed

lemma keys_add_index: "fst ` set (add_index g k i) = insert k (fst ` set g)"
  by (induction g k i rule: add_index.induct) auto

lemma distinct_add_index: "distinct (map fst g) \<Longrightarrow> distinct (map fst (add_index g k i))"
proof (induction g k i rule: add_index.induct)
  case (1 k i)
  show ?case by simp
next
  case (2 k' js g k i)
  then show ?case
    using keys_add_index [of g k i] by (auto simp: image_iff)
qed

lemma idxs_group_loop:
  "idxs (group_loop bs idx g) k =
     idxs g k \<union> {idx + j | j. j < length bs \<and> normalized_text (bs ! j) = k \<and> 25 \<le> length k}"
proof (induction bs arbitrary: idx g)
  case Nil
  show ?case by simp
next
  case (Cons b bs)
  have split: "\<And>P. {idx + j | j. j < Suc (length bs) \<and> P j} =
      (if P 0 then {idx} else {}) \<union> {Suc idx + j | j. j < length bs \<and> P (Suc j)}"
    apply (auto simp: less_Suc_eq_0_disj)
    done
  show ?case
    by (simp add: Let_def Cons.IH idxs_add_index split)
qed

lemma distinct_group_loop: "distinct (map fst g) \<Longrightarrow> distinct (map fst (group_loop bs idx g))"
  by (induction bs arbitrary: idx g) (simp_all add: Let_def distinct_add_index)

lemma pages_of_mark_set:
  "set js \<subseteq> {..<length bs} \<Longrightarrow> pages_of (mark_set S bs) js = pages_of bs js"
  unfolding pages_of_def
  by (rule arg_cong [where f = set], rule map_cong) auto

lemma flagged_mark_set:
  assumes "groups_in_range g (length bs)"
  shows "flagged g (mark_set S bs) = flagged g bs"
proof -
  have "\<And>k js. (k, js) \<in> set g \<Longrightarrow> pages_of (mark_set S bs) js = pages_of bs js"
    using assms by (intro pages_of_mark_set) (auto simp: groups_in_range_def)
  then show ?thesis
    unfolding flagged_def by auto
qed

lemma mark_loop_mark_set:
  "groups_in_range g (length bs) \<Longrightarrow> mark_loop g bs = mark_set (flagged g bs) bs"
proof (induction g arbitrary: bs)
  case Nil
  show ?case by (simp add: flagged_def)
next
  case (Cons e g)
  obtain nt js where e: "e = (nt, js)" by (cases e)
  from Cons.prems have rng: "groups_in_range g (length bs)"
    by (simp add: groups_in_range_def)
  show ?case
  proof (cases "3 \<le> card (pages_of bs js)")
    case True
    let ?bs' = "mark_set (set js) bs"
    have rng': "groups_in_range g (length ?bs')" using rng by simp
    have "mark_loop (e # g) bs = mark_loop g ?bs'"
      using True by (simp add: e fold_set_noise pages_of_def)
    also have "\<dots> = mark_set (flagged g ?bs') ?bs'"
      by (rule Cons.IH [OF rng'])
    also have "\<dots> = mark_set (flagged g bs \<union> set js) bs"
      by (simp add: flagged_mark_set [OF rng] mark_set_mark_set)
    also have "flagged g bs \<union> set js = flagged (e # g) bs"
      using True by (auto simp: flagged_def e)
    finally show ?thesis .
  next
    case False
    have "mark_loop (e # g) bs = mark_loop g bs"
      using False by (simp add: e pages_of_def)
    also have "\<dots> = mark_set (flagged g bs) bs"
      by (rule Cons.IH [OF rng])
    also have "flagged g bs = flagged (e # g) bs"
      using False by (auto simp: flagged_def e)
    finally show ?thesis .
  qed
qed

lemma map_of_idxs:
  "(k, js) \<in> set g \<Longrightarrow> distinct (map fst g) \<Longrightarrow> idxs g k = set js"
  by (simp add: idxs_def)

lemma idxs_group_loop0:
  "idxs (group_loop bs 0 []) k =
     {j. j < length bs \<and> normalized_text (bs ! j) = k \<and> 25 \<le> length k}"
  by (simp add: idxs_group_loop)

lemma distinct_groups: "distinct (map fst (group_loop bs 0 []))"
  by (rule distinct_group_loop) simp

lemma group_member:
  assumes "(k, js) \<in> set (group_loop bs 0 [])"
  shows "set js = {j. j < length bs \<and> normalized_text (bs ! j) = k \<and> 25 \<le> length k}"
  using map_of_idxs [OF assms distinct_groups] idxs_group_loop0 [of bs k] by simp

lemma groups_range: "groups_in_range (group_loop bs 0 []) (length bs)"
  unfolding groups_in_range_def using group_member by fastforce

lemma idxs_nonempty_key:
  "j \<in> idxs g k \<Longrightarrow> \<exists>js. (k, js) \<in> set g"
  by (auto simp: idxs_def split: option.splits dest: map_of_SomeD)

lemma pages_of_group:
  "pages_of bs js = page ` (\<lambda>j. bs ! j) ` set js"
  by (auto simp: pages_of_def)

lemma same_text_pages:
  "(\<lambda>j. bs ! j) ` {j. j < length bs \<and> normalized_text (bs ! j) = k} =
     {b \<in> set bs. normalized_text b = k}"
  by (auto simp: in_set_conv_nth)

lemma in_flagged_groups:
  assumes i: "i < length bs"
  shows "i \<in> flagged (group_loop bs 0 []) bs \<longleftrightarrow>
     25 \<le> length (normalized_text (bs ! i)) \<and>
     3 \<le> card (page ` {b \<in> set bs. normalized_text b = normalized_text (bs ! i)})"
    (is "?lhs \<longleftrightarrow> ?rhs")
proof
  let ?G = "group_loop bs 0 []"
  assume ?lhs
  then obtain k js where m: "(k, js) \<in> set ?G" and c: "3 \<le> card (pages_of bs js)" and ij: "i \<in> set js"
    by (auto simp: flagged_def split: if_splits)
  from group_member [OF m] ij have k: "normalized_text (bs ! i) = k" and len: "25 \<le> length k"
    by auto
  from group_member [OF m] len
  have "set js = {j. j < length bs \<and> normalized_text (bs ! j) = k}" by auto
  then have "pages_of bs js = page ` {b \<in> set bs. normalized_text b = k}"
    by (simp add: pages_of_group same_text_pages)
  with c k len show ?rhs by simp
next
  let ?G = "group_loop bs 0 []"
  let ?k = "normalized_text (bs ! i)"
  assume r: ?rhs
  then have len: "25 \<le> length ?k" by simp
  have "i \<in> idxs ?G ?k"
    using i len by (simp add: idxs_group_loop0)
  then obtain js where m: "(?k, js) \<in> set ?G"
    using idxs_nonempty_key by blast
  from group_member [OF m] len
  have js: "set js = {j. j < length bs \<and> normalized_text (bs ! j) = ?k}" by auto
  then have "pages_of bs js = page ` {b \<in> set bs. normalized_text b = ?k}"
    by (simp add: pages_of_group same_text_pages)
  with r have "3 \<le> card (pages_of bs js)" by simp
  moreover have "i \<in> set js" using js i by simp
  ultimately show ?lhs
    unfolding flagged_def using m by (intro UN_I [where a = "(?k, js)"]) simp_all
qed

lemma mark_boilerplate_noise_mark_set:
  "mark_boilerplate_noise bs = mark_set (flagged (group_loop bs 0 []) bs) bs"
  unfolding mark_boilerplate_noise_def by (rule mark_loop_mark_set [OF groups_range])

text \<open>
  C6. After the boilerplate pass the list has the same length, and the flag of a block is
  true exactly when it was true before, or its normalized text has at least 25 characters
  and the blocks with the same normalized text lie on at least 3 distinct pages. So the
  pass never clears a flag, and a text on fewer than 3 pages changes none.
\<close>

theorem boilerplate_pass:
  assumes "i < length bs"
  shows "length (mark_boilerplate_noise bs) = length bs \<and>
     (is_noise (mark_boilerplate_noise bs ! i) \<longleftrightarrow>
        is_noise (bs ! i) \<or>
        (25 \<le> length (normalized_text (bs ! i)) \<and>
         3 \<le> card (page ` {b \<in> set bs. normalized_text b = normalized_text (bs ! i)})))"
proof -
  have "is_noise (mark_boilerplate_noise bs ! i) \<longleftrightarrow>
          is_noise (bs ! i) \<or> i \<in> flagged (group_loop bs 0 []) bs"
    using assms by (simp add: mark_boilerplate_noise_mark_set)
  then show ?thesis
    unfolding in_flagged_groups [OF assms]
    by (simp add: mark_boilerplate_noise_mark_set)
qed

lemma Collect_set_filter: "{b \<in> set xs. P b} = set (filter P xs)"
  by auto

theorem boilerplate_pass_witness:
  "0 < length repeated_blocks \<and> 3 < length repeated_blocks \<and>
   \<not> is_noise (repeated_blocks ! 0) \<and> is_noise (mark_boilerplate_noise repeated_blocks ! 0) \<and>
   \<not> is_noise (repeated_blocks ! 3) \<and> \<not> is_noise (mark_boilerplate_noise repeated_blocks ! 3)"
proof -
  have l0: "0 < length repeated_blocks" and l3: "3 < length repeated_blocks"
    by (simp_all add: repeated_blocks_def)
  have p0: "page ` {b \<in> set repeated_blocks. normalized_text b = normalized_text (repeated_blocks ! 0)} = {1, 2, 3}"
    unfolding Collect_set_filter by (simp add: repeated_blocks_def mk_block_def u_def)
  have p3: "page ` {b \<in> set repeated_blocks. normalized_text b = normalized_text (repeated_blocks ! 3)} = {1, 2}"
    unfolding Collect_set_filter by (simp add: repeated_blocks_def mk_block_def u_def)
  have n0: "\<not> is_noise (repeated_blocks ! 0)" "25 \<le> length (normalized_text (repeated_blocks ! 0))"
    and n3: "\<not> is_noise (repeated_blocks ! 3)"
    by (simp_all add: repeated_blocks_def mk_block_def u_def)
  show ?thesis
    using boilerplate_pass [OF l0] boilerplate_pass [OF l3] l0 l3 n0 n3
    unfolding p0 p3 by simp
qed

subsection \<open>The chunk assembler\<close>

text \<open>A list of blocks at which a collecting run ends: empty, or starting with a title.\<close>

text \<open>The blocks whose text and id the inner loop collects.\<close>

lemma collect_title_headed: "title_headed zs \<Longrightarrow> collect L zs = ([], [], zs)"
  by (cases zs) (simp_all add: title_headed_def)

lemma collect_append:
  "title_headed zs \<Longrightarrow>
     collect L (xs @ zs) = (fst (collect L xs), fst (snd (collect L xs)), snd (snd (collect L xs)) @ zs)"
  by (induction xs) (simp_all add: collect_title_headed split: prod.splits)

lemma collect_skipped:
  "\<forall>b \<in> set ys. btype b \<noteq> Title \<and> skipped L b \<Longrightarrow> collect L ys = ([], [], [])"
  by (induction ys) simp_all

lemma chunk_loop_skipped:
  "\<forall>b \<in> set ys. btype b \<noteq> Title \<and> skipped L b \<Longrightarrow> chunk_loop L ys = []"
  by (induction ys) simp_all

lemma chunk_loop_append:
  "title_headed zs \<Longrightarrow> chunk_loop L (xs @ zs) = chunk_loop L xs @ chunk_loop L zs"
proof (induction L xs rule: chunk_loop.induct)
  case (1 L)
  show ?case by simp
next
  case (2 L b rest)
  note ca = collect_append [OF "2.prems", of L rest]
  show ?case
    using "2.IH" "2.prems" by (simp add: ca Let_def)
qed

lemma chunk_loop_empty_title:
  assumes "btype t = Title" and "\<forall>b \<in> set ys. btype b \<noteq> Title \<and> skipped L b"
  shows "chunk_loop L (t # ys) = []"
  using assms by (simp add: chunk_loop_skipped collect_skipped Let_def)

text \<open>
  C7. When a title block \<open>t\<close> is followed, up to the next title or the end of the list, only
  by blocks that are noise or match the table-of-contents discard rule, the chunks of the
  whole list are the chunks of the blocks before \<open>t\<close> followed by the chunks of the blocks
  from the next title on: no chunk is emitted for \<open>t\<close>.
\<close>

theorem title_without_content:
  assumes "btype t = Title"
    and "\<forall>b \<in> set ys. btype b \<noteq> Title \<and> (is_noise b \<or> should_discard_toc L b)"
    and "zs = [] \<or> btype (hd zs) = Title"
  shows "get_embedding_chunks L \<lparr>document_type = d, blocks = xs @ t # ys @ zs\<rparr> =
         get_embedding_chunks L \<lparr>document_type = d, blocks = xs\<rparr> @
         get_embedding_chunks L \<lparr>document_type = d, blocks = zs\<rparr>"
proof -
  have zs: "title_headed zs" using assms(3) by (simp add: title_headed_def)
  have tz: "title_headed (t # ys @ zs)" using assms(1) by (simp add: title_headed_def)
  have ys: "\<forall>b \<in> set ys. btype b \<noteq> Title \<and> skipped L b"
    using assms(2) by (simp add: skipped_def)
  have "chunk_loop L (xs @ t # ys @ zs) = chunk_loop L xs @ chunk_loop L ((t # ys) @ zs)"
    using chunk_loop_append [OF tz] by simp
  also have "chunk_loop L ((t # ys) @ zs) = chunk_loop L (t # ys) @ chunk_loop L zs"
    by (rule chunk_loop_append [OF zs])
  also have "chunk_loop L (t # ys) = []"
    by (rule chunk_loop_empty_title [OF assms(1) ys])
  finally show ?thesis
    by (simp add: get_embedding_chunks_def)
qed

lemma collect_members:
  "fst (collect L bs) = map (\<lambda>b. strip (btext b)) (members L bs) \<and>
   fst (snd (collect L bs)) = map block_id (members L bs)"
  by (induction bs) (auto split: prod.splits)

lemma members_clean: "m \<in> set (members L bs) \<Longrightarrow> m \<in> set bs \<and> \<not> skipped L m"
  by (induction bs) (auto split: if_splits)

lemma collect_rest_subset: "set (snd (snd (collect L bs))) \<subseteq> set bs"
  by (induction bs) (auto split: prod.splits)

text \<open>
  The chunk \<open>c\<close> is made of blocks of \<open>bs\<close> that are neither noise nor discarded: their ids
  are its \<open>block_ids\<close>, and their trimmed texts are its content (after its title, when the
  first of them is its title).
\<close>

lemma built_from_mono: "built_from L bs c \<Longrightarrow> set bs \<subseteq> set cs \<Longrightarrow> built_from L cs c"
  unfolding built_from_def by blast

lemma built_from_titled:
  assumes "\<not> skipped L b"
  shows "built_from L (b # rest)
           (make_chunk (strip (btext b)) (fst (collect L rest)) b (block_id b # fst (snd (collect L rest))))"
  unfolding built_from_def
proof (intro exI [where x = "b # members L rest"] conjI)
  show "\<forall>m \<in> set (b # members L rest). \<not> is_noise m \<and> \<not> should_discard_toc L m"
    using assms members_clean [of _ L rest] by (auto simp: skipped_def)
  show "set (b # members L rest) \<subseteq> set (b # rest)"
    using members_clean [of _ L rest] by auto
qed (simp_all add: make_chunk_def collect_members)

lemma built_from_titleless:
  assumes "\<not> skipped L b"
  shows "built_from L (b # rest)
           (make_chunk [] (strip (btext b) # fst (collect L rest)) b (block_id b # fst (snd (collect L rest))))"
  unfolding built_from_def
proof (intro exI [where x = "b # members L rest"] conjI)
  show "\<forall>m \<in> set (b # members L rest). \<not> is_noise m \<and> \<not> should_discard_toc L m"
    using assms members_clean [of _ L rest] by (auto simp: skipped_def)
  show "set (b # members L rest) \<subseteq> set (b # rest)"
    using members_clean [of _ L rest] by auto
qed (simp_all add: make_chunk_def collect_members)

lemma chunk_loop_built:
  "c \<in> set (chunk_loop L bs) \<Longrightarrow> built_from L bs c"
proof (induction L bs rule: chunk_loop.induct)
  case (1 L)
  then show ?case by simp
next
  case (2 L b rest)
  let ?after = "snd (snd (collect L rest))"
  have sub1: "set rest \<subseteq> set (b # rest)" by auto
  have sub2: "set ?after \<subseteq> set (b # rest)"
    using collect_rest_subset [of L rest] by auto
  show ?case
  proof (cases "skipped L b")
    case True
    with "2.prems" have "c \<in> set (chunk_loop L rest)" by simp
    with "2.IH"(1) True show ?thesis
      using built_from_mono [OF _ sub1] by blast
  next
    case ns: False
    show ?thesis
    proof (cases "btype b = Title")
      case title: True
      let ?tt = "strip (btext b)"
      show ?thesis
      proof (cases "length ?tt < 4 \<or> (32 \<notin> set ?tt \<and> length ?tt < 20)")
        case True
        with "2.prems" ns title have "c \<in> set (chunk_loop L rest)" by (simp add: Let_def)
        with "2.IH"(2) [OF ns title refl True] show ?thesis
          using built_from_mono [OF _ sub1] by blast
      next
        case False
        with "2.prems" ns title
        have "c = make_chunk ?tt (fst (collect L rest)) b (block_id b # fst (snd (collect L rest))) \<or>
              c \<in> set (chunk_loop L ?after)"
          by (auto simp: Let_def split: if_splits)
        then show ?thesis
        proof
          assume "c = make_chunk ?tt (fst (collect L rest)) b (block_id b # fst (snd (collect L rest)))"
          then show ?thesis using built_from_titled [OF ns] by simp
        next
          assume "c \<in> set (chunk_loop L ?after)"
          with "2.IH"(3) [OF ns title refl False refl refl] show ?thesis
            using built_from_mono [OF _ sub2] by blast
        qed
      qed
    next
      case nt: False
      show ?thesis
      proof (cases "btype b \<in> content_types")
        case True
        with "2.prems" ns nt
        have "c = make_chunk [] (strip (btext b) # fst (collect L rest)) b
                    (block_id b # fst (snd (collect L rest))) \<or>
              c \<in> set (chunk_loop L ?after)"
          by (auto simp: Let_def)
        then show ?thesis
        proof
          assume "c = make_chunk [] (strip (btext b) # fst (collect L rest)) b
                    (block_id b # fst (snd (collect L rest)))"
          then show ?thesis using built_from_titleless [OF ns] by simp
        next
          assume "c \<in> set (chunk_loop L ?after)"
          moreover have "btype b \<in> content_types \<and> \<not> skipped L b" using True ns by simp
          ultimately show ?thesis
            using "2.IH"(4) [OF ns nt _ refl refl] built_from_mono [OF _ sub2] by blast
        qed
      next
        case False
        with "2.prems" ns nt have "c \<in> set (chunk_loop L rest)" by simp
        moreover have "\<not> (btype b \<in> content_types \<and> \<not> skipped L b)" using False by simp
        ultimately show ?thesis
          using "2.IH"(5) [OF ns nt] built_from_mono [OF _ sub1] by blast
      qed
    qed
  qed
qed

text \<open>
  C10. Every chunk is made of blocks of the list that are neither noise nor discarded by
  the table-of-contents rule: its \<open>block_ids\<close> are their ids, in order, and its title and
  content are their trimmed texts. When the block ids of the list are distinct, every
  block whose id is in a chunk's \<open>block_ids\<close> is neither noise nor discarded.
\<close>

theorem chunks_from_clean_blocks:
  assumes "c \<in> set (get_embedding_chunks L res)"
  shows "(\<exists>ms. ms \<noteq> [] \<and> set ms \<subseteq> set (blocks res) \<and>
            (\<forall>b \<in> set ms. \<not> is_noise b \<and> \<not> should_discard_toc L b) \<and>
            c_block_ids c = map block_id ms \<and>
            (c_title c = [] \<and> c_content c = join [10, 10] (map (\<lambda>b. strip (btext b)) ms) \<or>
             c_title c = strip (btext (hd ms)) \<and>
             c_content c = join [10, 10] (map (\<lambda>b. strip (btext b)) (tl ms)))) \<and>
         (distinct (map block_id (blocks res)) \<longrightarrow>
            (\<forall>b \<in> set (blocks res). block_id b \<in> set (c_block_ids c) \<longrightarrow>
               \<not> is_noise b \<and> \<not> should_discard_toc L b))"
proof -
  from assms have "built_from L (blocks res) c"
    by (simp add: get_embedding_chunks_def chunk_loop_built)
  then obtain ms where ms: "ms \<noteq> []" "set ms \<subseteq> set (blocks res)"
      "\<forall>b \<in> set ms. \<not> is_noise b \<and> \<not> should_discard_toc L b"
      "c_block_ids c = map block_id ms"
      "c_title c = [] \<and> c_content c = join [10, 10] (map (\<lambda>b. strip (btext b)) ms) \<or>
       c_title c = strip (btext (hd ms)) \<and>
       c_content c = join [10, 10] (map (\<lambda>b. strip (btext b)) (tl ms))"
    unfolding built_from_def by blast
  have "\<not> is_noise b \<and> \<not> should_discard_toc L b"
    if d: "distinct (map block_id (blocks res))" and b: "b \<in> set (blocks res)"
      and i: "block_id b \<in> set (c_block_ids c)" for b
  proof -
    from i ms(4) obtain m where m: "m \<in> set ms" "block_id m = block_id b" by auto
    from d have "inj_on block_id (set (blocks res))" by (simp add: distinct_map)
    with m b ms(2) have "m = b" by (auto dest: inj_onD)
    with m(1) ms(3) show ?thesis by blast
  qed
  with ms show ?thesis by blast
qed

text \<open>
  A section with one paragraph, a date and a table-of-contents line, followed by a
  heading that only a footer and a page number follow.
\<close>

text \<open>Evaluation of the examples: the fields of \<open>tr_lib\<close> and the string functions.\<close>

lemma tr_lib_sel:
  "nfc tr_lib = (\<lambda>s. s)" "str_lower tr_lib = (\<lambda>s. concat (map lower_char s))"
  "is_digit tr_lib = ascii_digit" "is_decimal tr_lib = ascii_digit" "is_alnum tr_lib = tr_alnum"
  "ci_eq tr_lib = tr_ci_eq" "py_str tr_lib = tr_str" "int_of_str tr_lib = parse_digits"
  "int_of_float tr_lib = (\<lambda>x. Inr x)" "float_of_int tr_lib = (\<lambda>n. Some n)"
  "float_of_str tr_lib = parse_digits" "float_nonzero tr_lib = (\<lambda>x. x \<noteq> 0)"
  by (simp_all add: tr_lib_def)

lemmas str_ev = u_def strip_def strip_chars_def is_space_def tr_lib_sel lower_char_def simple_lower_def
  ascii_digit_def tr_alnum_def tr_ci_eq_def turkish_letters_def isdigit_def Let_def

lemma digits_small: "n < 10 \<Longrightarrow> digits n = [48 + n]"
  by (simp add: digits.simps)

lemmas chunk_ev = skipped_def should_discard_toc_def content_types_def make_chunk_def mk_block_def
  icindekiler_def re_search_def digits_small

lemma report_head_chunks:
  "chunk_loop tr_lib (take 4 report_blocks) = [report_chunk]"
  by (simp add: report_blocks_def report_chunk_def chunk_ev str_ev)

lemma report_tail_skipped:
  "\<forall>b \<in> set (drop 5 report_blocks). btype b \<noteq> Title \<and> (is_noise b \<or> should_discard_toc tr_lib b)"
  by (simp add: report_blocks_def chunk_ev str_ev)

theorem title_without_content_witness:
  "btype (report_blocks ! 4) = Title \<and>
   list_all (\<lambda>b. btype b \<noteq> Title \<and> (is_noise b \<or> should_discard_toc tr_lib b)) (drop 5 report_blocks) \<and>
   get_embedding_chunks tr_lib \<lparr>document_type = u ''unknown'', blocks = report_blocks\<rparr> = [report_chunk]"
proof -
  have t: "btype (report_blocks ! 4) = Title"
    by (simp add: report_blocks_def mk_block_def)
  have split: "report_blocks = take 4 report_blocks @ report_blocks ! 4 # drop 5 report_blocks @ []"
    by (simp add: report_blocks_def)
  have "get_embedding_chunks tr_lib
          \<lparr>document_type = u ''unknown'',
             blocks = take 4 report_blocks @ report_blocks ! 4 # drop 5 report_blocks @ []\<rparr> = [report_chunk]"
    using title_without_content [OF t report_tail_skipped disjI1 [OF refl],
        where d = "u ''unknown''" and xs = "take 4 report_blocks"]
    by (simp add: get_embedding_chunks_def report_head_chunks)
  with t report_tail_skipped split show ?thesis
    by (simp add: list_all_iff)
qed

lemma report_chunks: "chunk_loop tr_lib report_blocks = [report_chunk]"
  by (simp add: report_blocks_def report_chunk_def chunk_ev str_ev)

theorem chunks_from_clean_blocks_witness:
  "report_chunk \<in> set (get_embedding_chunks tr_lib \<lparr>document_type = u ''unknown'', blocks = report_blocks\<rparr>) \<and>
   distinct (map block_id report_blocks) \<and>
   c_block_ids report_chunk = [block_id (report_blocks ! 0), block_id (report_blocks ! 1)] \<and>
   \<not> is_noise (report_blocks ! 0) \<and> \<not> should_discard_toc tr_lib (report_blocks ! 0) \<and>
   \<not> is_noise (report_blocks ! 1) \<and> \<not> should_discard_toc tr_lib (report_blocks ! 1)"
proof -
  let ?R = "\<lparr>document_type = u ''unknown'', blocks = report_blocks\<rparr>"
  have mem: "report_chunk \<in> set (get_embedding_chunks tr_lib ?R)"
    by (simp add: get_embedding_chunks_def report_chunks)
  have d: "distinct (map block_id (blocks ?R))"
    by (simp add: report_blocks_def mk_block_def digits_small u_def)
  have b: "report_blocks ! 0 \<in> set (blocks ?R)" "report_blocks ! 1 \<in> set (blocks ?R)"
    by (simp_all add: report_blocks_def)
  have ids: "c_block_ids report_chunk = [block_id (report_blocks ! 0), block_id (report_blocks ! 1)]"
    by (simp add: report_blocks_def report_chunk_def mk_block_def digits_small u_def)
  from chunks_from_clean_blocks [OF mem] d
  have "\<forall>b \<in> set (blocks ?R). block_id b \<in> set (c_block_ids report_chunk) \<longrightarrow>
          \<not> is_noise b \<and> \<not> should_discard_toc tr_lib b"
    by blast
  with b ids have "\<not> is_noise (report_blocks ! 0) \<and> \<not> should_discard_toc tr_lib (report_blocks ! 0)"
    and "\<not> is_noise (report_blocks ! 1) \<and> \<not> should_discard_toc tr_lib (report_blocks ! 1)"
    by simp_all
  with mem d ids show ?thesis by simp
qed

subsection \<open>The structure builder and the end-to-end example\<close>

text \<open>The nearest title-typed block at or before index \<open>i\<close>, if there is one.\<close>

text \<open>
  For the proof: the texts of the titles among the first \<open>n\<close> blocks, the section they
  determine, and the invariant of the pass.
\<close>

lemma sentinel_nonempty: "sentinel \<noteq> []"
  by (simp add: sentinel_def u_def)

lemma slug_nonempty: "slug L v \<noteq> []"
  by (simp add: slug_def Let_def sentinel_nonempty split: pyval.splits)

lemma slug_blank:
  assumes "str_lower L [] = []" and "strip t = []"
  shows "slug L (PStr t) = sentinel"
  using assms by (simp add: slug_def Let_def translate_def strip_chars_def)

lemma element_step_append:
  assumes "element_step L i el st = Inr st'"
  shows "\<exists>bt txt p bb. st' = append_block L i bt txt p bb st"
  using assms unfolding element_step_def Let_def
  by (auto split: sum.splits)

lemma cursor_nonempty: "fst (cursor_for L ts) \<noteq> []"
  by (simp add: cursor_for_def sentinel_nonempty slug_nonempty)

lemma titles_upto_append_le:
  "n \<le> length bs \<Longrightarrow> titles_upto (bs @ cs) n = titles_upto bs n"
  by (simp add: titles_upto_def)

lemma titles_upto_snoc:
  "titles_upto (bs @ [b]) (Suc (length bs)) =
     titles_upto bs (length bs) @ (if btype b = Title then [btext b] else [])"
  by (simp add: titles_upto_def)

lemma append_block_fields:
  "acc (append_block L i bt t p bb st) = acc st @ [last (acc (append_block L i bt t p bb st))]"
  "btype (last (acc (append_block L i bt t p bb st))) = bt"
  "btext (last (acc (append_block L i bt t p bb st))) = t"
  "section_id (last (acc (append_block L i bt t p bb st))) =
     (if current_section_id (append_block L i bt t p bb st) = [] then sentinel
      else current_section_id (append_block L i bt t p bb st))"
  "section_title (last (acc (append_block L i bt t p bb st))) =
     current_section_title (append_block L i bt t p bb st)"
  "current_section_id (append_block L i bt t p bb st) =
     (if bt = Title then slug L (PStr t) else current_section_id st)"
  "current_section_title (append_block L i bt t p bb st) =
     (if bt = Title then strip t else current_section_title st)"
  by (simp_all add: append_block_def Let_def)

lemma cursor_for_snoc:
  "cursor_for L (ts @ (if bt = Title then [t] else [])) =
     (if bt = Title then (slug L (PStr t), strip t) else cursor_for L ts)"
  by (simp add: cursor_for_def)

lemma append_block_inv:
  assumes inv: "builder_inv L st"
  shows "builder_inv L (append_block L i bt t p bb st) \<and>
         length (acc (append_block L i bt t p bb st)) = Suc (length (acc st))"
proof -
  let ?st' = "append_block L i bt t p bb st"
  define b where "b = last (acc ?st')"
  define sid where "sid = current_section_id ?st'"
  define stitle where "stitle = current_section_title ?st'"
  note f = append_block_fields [of L i bt t p bb st, folded b_def sid_def stitle_def]
  from inv have old: "(current_section_id st, current_section_title st) =
      cursor_for L (titles_upto (acc st) (length (acc st)))"
    and ok: "sections_ok L (acc st)"
    by (simp_all add: builder_inv_def)
  have "cursor_for L (titles_upto (acc st @ [b]) (Suc (length (acc st)))) =
      (if bt = Title then (slug L (PStr t), strip t) else (current_section_id st, current_section_title st))"
    unfolding titles_upto_snoc f(2) f(3) cursor_for_snoc old ..
  also have "\<dots> = (sid, stitle)"
    unfolding f(6) f(7) by simp
  finally have new: "cursor_for L (titles_upto (acc st @ [b]) (Suc (length (acc st)))) = (sid, stitle)" .
  have ne: "sid \<noteq> []"
    using cursor_nonempty [of L "titles_upto (acc st @ [b]) (Suc (length (acc st)))"]
    unfolding new by simp
  have "sections_ok L (acc st @ [b])"
    unfolding sections_ok_def
  proof (intro allI impI)
    fix j assume j: "j < length (acc st @ [b])"
    show "(section_id ((acc st @ [b]) ! j), section_title ((acc st @ [b]) ! j)) =
          cursor_for L (titles_upto (acc st @ [b]) (Suc j))"
    proof (cases "j < length (acc st)")
      case True
      then show ?thesis
        using ok by (simp add: sections_ok_def nth_append titles_upto_append_le)
    next
      case False
      with j have "j = length (acc st)" by simp
      then show ?thesis
        using ne by (simp add: new f(4) f(5))
    qed
  qed
  then show ?thesis
    unfolding builder_inv_def f(1) using new by (simp add: sid_def stitle_def)
qed

lemma element_loop_inv:
  "element_loop L i els st = Inr st' \<Longrightarrow> builder_inv L st \<Longrightarrow>
     builder_inv L st' \<and> length (acc st') = length (acc st) + length els"
proof (induction els arbitrary: i st)
  case Nil
  then show ?case by simp
next
  case (Cons el els)
  from Cons.prems(1) obtain st1 where s1: "element_step L i el st = Inr st1"
    and rest: "element_loop L (Suc i) els st1 = Inr st'"
    by (auto split: sum.splits)
  from element_step_append [OF s1] obtain bt t p bb where "st1 = append_block L i bt t p bb st"
    by blast
  with append_block_inv [OF Cons.prems(2)] have "builder_inv L st1" "length (acc st1) = Suc (length (acc st))"
    by simp_all
  with Cons.IH [OF rest] show ?case by simp
qed

lemma init_builder_inv: "builder_inv L init_builder"
  by (simp add: builder_inv_def init_builder_def sections_ok_def titles_upto_def cursor_for_def)

lemma titles_upto_mark_set: "titles_upto (mark_set S bs) n = titles_upto bs n"
proof -
  have rel: "list_all2 (\<lambda>x y. btype x = btype y \<and> btext x = btext y) (mark_set S bs) bs"
    by (simp add: list_all2_conv_all_nth)
  have "\<And>xs ys :: 'a block list. list_all2 (\<lambda>x y. btype x = btype y \<and> btext x = btext y) xs ys \<Longrightarrow>
      map btext (filter (\<lambda>b. btype b = Title) xs) = map btext (filter (\<lambda>b. btype b = Title) ys)"
    by (erule list_all2_induct) simp_all
  from this [OF list_all2_takeI [OF rel]] show ?thesis
    by (simp add: titles_upto_def)
qed

lemma sections_ok_mark_set: "sections_ok L bs \<Longrightarrow> sections_ok L (mark_set S bs)"
  by (simp add: sections_ok_def titles_upto_mark_set)

lemma extract_structure_blocks:
  assumes "extract_structure L els = Inr res"
  shows "sections_ok L (blocks res) \<and> length (blocks res) = length els"
proof -
  from assms obtain st where loop: "element_loop L 0 els init_builder = Inr st"
    and res: "res = \<lparr>document_type = u ''unknown'', blocks = mark_boilerplate_noise (acc st)\<rparr>"
    by (auto simp: extract_structure_def split: sum.splits)
  from element_loop_inv [OF loop init_builder_inv]
  have "builder_inv L st" "length (acc st) = length els"
    by (simp_all add: init_builder_def)
  then show ?thesis
    by (simp add: res mark_boilerplate_noise_mark_set sections_ok_mark_set builder_inv_def)
qed

lemma case_snoc: "(case ys @ [b] of [] \<Rightarrow> n | ts \<Rightarrow> f (last ts)) = f b"
  by (cases ys) simp_all

lemma nearest_title_titles:
  "(case nearest_title bs i of None \<Rightarrow> P (sentinel, []) | Some t \<Rightarrow> P (slug L (PStr (btext t)), strip (btext t))) =
     P (cursor_for L (titles_upto bs (Suc i)))"
  by (simp add: nearest_title_def titles_upto_def cursor_for_def last_map split: list.splits)

text \<open>
  C8. Whenever \<open>extract_structure\<close> returns, the list of blocks is as long as the list of
  elements.
\<close>

theorem block_count:
  assumes "extract_structure L elements = Inr res"
  shows "length (blocks res) = length elements"
  using extract_structure_blocks [OF assms] by simp

text \<open>
  C3. In the blocks \<open>extract_structure\<close> returns, the \<open>section_id\<close> of a block is \<open>_slug\<close> of
  the text of the nearest title at or before it and its \<open>section_title\<close> that text trimmed;
  before the first title they are "basliksiz" and the empty string. A title whose text
  is empty or whitespace sets the section to "basliksiz" (given that \<open>str.lower\<close> of the
  empty string is empty).
\<close>

theorem section_tracking:
  assumes "extract_structure L elements = Inr res" and "i < length (blocks res)"
  shows "(case nearest_title (blocks res) i of
            None \<Rightarrow> section_id (blocks res ! i) = u ''basliksiz'' \<and> section_title (blocks res ! i) = []
          | Some t \<Rightarrow> section_id (blocks res ! i) = slug L (PStr (btext t)) \<and>
                      section_title (blocks res ! i) = strip (btext t)) \<and>
         (str_lower L [] = [] \<and> btype (blocks res ! i) = Title \<and> strip (btext (blocks res ! i)) = []
            \<longrightarrow> section_id (blocks res ! i) = u ''basliksiz'' \<and> section_title (blocks res ! i) = [])"
proof -
  let ?b = "blocks res ! i"
  from extract_structure_blocks [OF assms(1)] assms(2)
  have eq: "(section_id ?b, section_title ?b) = cursor_for L (titles_upto (blocks res) (Suc i))"
    by (simp add: sections_ok_def)
  have first: "case nearest_title (blocks res) i of
            None \<Rightarrow> (section_id ?b, section_title ?b) = (sentinel, [])
          | Some t \<Rightarrow> (section_id ?b, section_title ?b) = (slug L (PStr (btext t)), strip (btext t))"
    using eq nearest_title_titles [where bs = "blocks res" and i = i and L = L and P = "\<lambda>c. (section_id ?b, section_title ?b) = c"]
    by simp
  have second: "section_id ?b = sentinel \<and> section_title ?b = []"
    if "str_lower L [] = []" "btype ?b = Title" "strip (btext ?b) = []"
  proof -
    have "take (Suc i) (blocks res) = take i (blocks res) @ [?b]"
      using assms(2) by (simp add: take_Suc_conv_app_nth)
    then have "nearest_title (blocks res) i = Some ?b"
      using that by (simp add: nearest_title_def case_snoc)
    with first that show ?thesis
      by (simp add: slug_blank)
  qed
  from first second show ?thesis
    by (auto simp: sentinel_def split: option.splits)
qed

text \<open>The end-to-end example of the specification, and the blocks the builder returns for it.\<close>

text \<open>Evaluation of the patterns and of the noise rules on the strings of the examples.\<close>

lemmas rx_ev = re_search_def re_match_def word_boundary_def is_word_def
  DATE_PATTERN_def month_names_def COPYRIGHT_PATTERN_def URL_PATTERN_def TOC_LINE_PATTERN_def

lemmas noise_ev = is_noise_fn_def UI_INSTRUCTION_MARKERS_def ICINDEKILER_MARKERS_def icindekiler_def
  separator_count_def

lemma ex_noise_title: "is_noise_fn tr_lib Title (u ''Giri'' @ [351]) (u ''Giri'' @ [351]) = False"
  by (simp add: str_ev rx_ev noise_ev)

lemma ex_noise_para: "is_noise_fn tr_lib Paragraph (u ''Bu bir paragraf.'') (u ''Giri'' @ [351]) = False"
  by (simp add: str_ev rx_ev noise_ev)

lemma ex_slug: "slug tr_lib (PStr (u ''Giri'' @ [351])) = u ''giris''"
  by (simp add: str_ev slug_def translate_def tr_map_def slug_char_def)

lemma ex_norm_title: "normalize_text tr_lib (PStr (u ''Giri'' @ [351])) = u ''Giri'' @ [351]"
  by (simp add: str_ev normalize_text_def)

lemma ex_norm_para: "normalize_text tr_lib (PStr (u ''Bu bir paragraf.'')) = u ''Bu bir paragraf.''"
  by (simp add: str_ev normalize_text_def)

lemmas step_ev = element_step_def dict_get_def dict_get_default_def py_or_def block_type_def
  CATEGORY_TO_TYPE_def page_of_def bbox_from_element_def

lemma ex_step_title:
  "element_step tr_lib i
     [(u ''category'', PStr (u ''Title'')), (u ''text'', PStr (u ''Giri'' @ [351])), (u ''page_number'', PInt 1)] st =
     Inr (append_block tr_lib i Title (u ''Giri'' @ [351]) 1 None st)"
  by (simp add: step_ev str_ev)

lemma ex_step_para:
  "element_step tr_lib i
     [(u ''category'', PStr (u ''NarrativeText'')), (u ''text'', PStr (u ''Bu bir paragraf.'')),
      (u ''page_number'', PInt 1)] st =
     Inr (append_block tr_lib i Paragraph (u ''Bu bir paragraf.'') 1 None st)"
  by (simp add: step_ev str_ev)

lemma zero_pad_3: "zero_pad 3 [a] = [48, 48, a]" "zero_pad 3 [a, b] = [48, a, b]" "zero_pad 3 [a, b, c] = [a, b, c]"
  by (simp_all add: zero_pad_def numeral_2_eq_2)

lemma digits_Suc_0: "digits (Suc 0) = [49]"
  by (simp add: digits.simps)

lemma ex_acc:
  "acc (append_block tr_lib (Suc 0) Paragraph (u ''Bu bir paragraf.'') 1 None
         (append_block tr_lib 0 Title (u ''Giri'' @ [351]) 1 None init_builder)) = example_blocks"
  using ex_noise_title ex_noise_para ex_slug ex_norm_title ex_norm_para
  by (simp add: append_block_def init_builder_def example_blocks_def str_of_int_def fmt_03d_def
        zero_pad_3 digits_small digits_Suc_0 sentinel_def str_ev)

lemma ex_boiler: "mark_boilerplate_noise example_blocks = example_blocks"
  by (simp add: mark_boilerplate_noise_def example_blocks_def u_def)

lemma ex_extract:
  "extract_structure tr_lib example_elements = Inr \<lparr>document_type = u ''unknown'', blocks = example_blocks\<rparr>"
proof -
  have "element_loop tr_lib 0 example_elements init_builder =
      Inr (append_block tr_lib (Suc 0) Paragraph (u ''Bu bir paragraf.'') 1 None
            (append_block tr_lib 0 Title (u ''Giri'' @ [351]) 1 None init_builder))"
    unfolding example_elements_def by (simp add: ex_step_title ex_step_para)
  then show ?thesis
    by (simp add: extract_structure_def ex_acc ex_boiler)
qed

lemma ex_chunks:
  "chunk_loop tr_lib example_blocks =
     [\<lparr>c_title = [], c_content = u ''Bu bir paragraf.'', c_page = 1, c_section_id = u ''giris'',
       c_section_title = u ''Giri'' @ [351], c_chunk_id = u ''page_1_section_giris_002'',
       c_block_ids = [u ''block_1'']\<rparr>]"
  by (simp add: example_blocks_def skipped_def should_discard_toc_def content_types_def make_chunk_def str_ev)

text \<open>A paragraph before any title, a title of three spaces, and a paragraph after it.\<close>

lemma blank_noise_para: "is_noise_fn tr_lib Paragraph (u ''Bu bir paragraf.'') [] = False"
  by (simp add: str_ev rx_ev noise_ev)

lemma blank_noise_title: "is_noise_fn tr_lib Title (u ''   '') [] = True"
  by (simp add: str_ev is_noise_fn_def)

lemma blank_slug: "slug tr_lib (PStr (u ''   '')) = sentinel"
  by (rule slug_blank) (simp_all add: str_ev)

lemma blank_norm: "normalize_text tr_lib (PStr (u ''   '')) = []"
  by (simp add: str_ev normalize_text_def)

lemma blank_step_para:
  "p \<noteq> 0 \<Longrightarrow>
   element_step tr_lib i
     [(u ''category'', PStr (u ''NarrativeText'')), (u ''text'', PStr (u ''Bu bir paragraf.'')),
      (u ''page_number'', PInt p)] st =
     Inr (append_block tr_lib i Paragraph (u ''Bu bir paragraf.'') p None st)"
  by (simp add: step_ev str_ev)

lemma blank_step_title:
  "element_step tr_lib i
     [(u ''category'', PStr (u ''Title'')), (u ''text'', PStr (u ''   '')), (u ''page_number'', PInt 1)] st =
     Inr (append_block tr_lib i Title (u ''   '') 1 None st)"
  by (simp add: step_ev str_ev)

lemma digits_Suc_Suc_0: "digits (Suc (Suc 0)) = [50]"
  by (simp add: digits.simps)

lemma blank_acc:
  "acc (append_block tr_lib (Suc (Suc 0)) Paragraph (u ''Bu bir paragraf.'') 2 None
         (append_block tr_lib (Suc 0) Title (u ''   '') 1 None
           (append_block tr_lib 0 Paragraph (u ''Bu bir paragraf.'') 1 None init_builder))) = blank_title_blocks"
  using blank_noise_para blank_noise_title blank_slug blank_norm ex_norm_para
  by (simp add: append_block_def init_builder_def blank_title_blocks_def str_of_int_def fmt_03d_def
        zero_pad_3 digits_small digits_Suc_0 digits_Suc_Suc_0 sentinel_def str_ev)

lemma blank_boiler: "mark_boilerplate_noise blank_title_blocks = blank_title_blocks"
  by (simp add: mark_boilerplate_noise_def blank_title_blocks_def u_def)

lemma blank_extract:
  "extract_structure tr_lib blank_title_elements =
     Inr \<lparr>document_type = u ''unknown'', blocks = blank_title_blocks\<rparr>"
proof -
  have "element_loop tr_lib 0 blank_title_elements init_builder =
      Inr (append_block tr_lib (Suc (Suc 0)) Paragraph (u ''Bu bir paragraf.'') 2 None
            (append_block tr_lib (Suc 0) Title (u ''   '') 1 None
              (append_block tr_lib 0 Paragraph (u ''Bu bir paragraf.'') 1 None init_builder)))"
    unfolding blank_title_elements_def by (simp add: blank_step_para blank_step_title)
  then show ?thesis
    by (simp add: extract_structure_def blank_acc blank_boiler)
qed

theorem block_count_witness:
  "extract_structure tr_lib blank_title_elements =
     Inr \<lparr>document_type = u ''unknown'', blocks = blank_title_blocks\<rparr> \<and>
   length blank_title_blocks = 3 \<and> length blank_title_elements = 3"
  using block_count [OF blank_extract] blank_extract
  by (simp add: blank_title_elements_def)

theorem section_tracking_witness:
  "section_id (example_blocks ! 1) = slug tr_lib (PStr (btext (example_blocks ! 0))) \<and>
   section_title (example_blocks ! 1) = strip (btext (example_blocks ! 0)) \<and>
   section_id (blank_title_blocks ! 0) = u ''basliksiz'' \<and>
   section_title (blank_title_blocks ! 0) = [] \<and>
   btype (blank_title_blocks ! 1) = Title \<and> strip (btext (blank_title_blocks ! 1)) = [] \<and>
   section_id (blank_title_blocks ! 1) = u ''basliksiz'' \<and>
   section_id (blank_title_blocks ! 2) = u ''basliksiz''"
proof -
  have n1: "nearest_title example_blocks 1 = Some (example_blocks ! 0)"
    by (simp add: nearest_title_def example_blocks_def)
  have n0: "nearest_title blank_title_blocks 0 = None"
    by (simp add: nearest_title_def blank_title_blocks_def)
  have l: "1 < length (blocks \<lparr>document_type = u ''unknown'', blocks = example_blocks\<rparr>)"
    "0 < length (blocks \<lparr>document_type = u ''unknown'', blocks = blank_title_blocks\<rparr>)"
    "1 < length (blocks \<lparr>document_type = u ''unknown'', blocks = blank_title_blocks\<rparr>)"
    "2 < length (blocks \<lparr>document_type = u ''unknown'', blocks = blank_title_blocks\<rparr>)"
    by (simp_all add: example_blocks_def blank_title_blocks_def)
  have t: "str_lower tr_lib [] = []" "btype (blank_title_blocks ! 1) = Title"
    "strip (btext (blank_title_blocks ! 1)) = []"
    by (simp_all add: blank_title_blocks_def str_ev)
  have n2: "nearest_title blank_title_blocks 2 = Some (blank_title_blocks ! 1)"
    by (simp add: nearest_title_def blank_title_blocks_def)
  have s: "slug tr_lib (PStr (btext (blank_title_blocks ! 1))) = u ''basliksiz''"
    using blank_slug by (simp add: blank_title_blocks_def sentinel_def)
  have a: "section_id (example_blocks ! 1) = slug tr_lib (PStr (btext (example_blocks ! 0))) \<and>
      section_title (example_blocks ! 1) = strip (btext (example_blocks ! 0))"
    using section_tracking [OF ex_extract l(1)] n1 by simp
  have b: "section_id (blank_title_blocks ! 0) = u ''basliksiz'' \<and> section_title (blank_title_blocks ! 0) = []"
    using section_tracking [OF blank_extract l(2)] n0 by simp
  have c: "section_id (blank_title_blocks ! 1) = u ''basliksiz''"
    using section_tracking [OF blank_extract l(3)] t by simp
  have d: "section_id (blank_title_blocks ! 2) = u ''basliksiz''"
    using section_tracking [OF blank_extract l(4)] n2 s by simp
  from a b c d t show ?thesis by simp
qed

text \<open>
  C1 (as amended). For the two elements of the example, \<open>extract_structure\<close> returns two
  blocks and \<open>get_embedding_chunks\<close> exactly one chunk, with the empty title, the content
  "Bu bir paragraf." and page 1: the title has five characters and no space, so the
  assembler passes over it, and the paragraph starts a chunk without a title.
\<close>

theorem end_to_end_example:
  "extract_structure tr_lib example_elements =
     Inr \<lparr>document_type = u ''unknown'', blocks = example_blocks\<rparr> \<and>
   get_embedding_chunks tr_lib \<lparr>document_type = u ''unknown'', blocks = example_blocks\<rparr> =
     [\<lparr>c_title = [], c_content = u ''Bu bir paragraf.'', c_page = 1, c_section_id = u ''giris'',
       c_section_title = u ''Giri'' @ [351], c_chunk_id = u ''page_1_section_giris_002'',
       c_block_ids = [u ''block_1'']\<rparr>]"
  by (simp add: ex_extract ex_chunks get_embedding_chunks_def)

text \<open>C1 as stated fails: the one chunk of the example does not have the title of the heading.\<close>

theorem end_to_end_example_counterexample:
  "extract_structure tr_lib example_elements =
     Inr \<lparr>document_type = u ''unknown'', blocks = example_blocks\<rparr> \<and>
   \<not> (length (get_embedding_chunks tr_lib \<lparr>document_type = u ''unknown'', blocks = example_blocks\<rparr>) = 1 \<and>
      c_title (hd (get_embedding_chunks tr_lib \<lparr>document_type = u ''unknown'', blocks = example_blocks\<rparr>)) =
        u ''Giri'' @ [351] \<and>
      c_content (hd (get_embedding_chunks tr_lib \<lparr>document_type = u ''unknown'', blocks = example_blocks\<rparr>)) =
        u ''Bu bir paragraf.'' \<and>
      c_page (hd (get_embedding_chunks tr_lib \<lparr>document_type = u ''unknown'', blocks = example_blocks\<rparr>)) = 1)"
  by (simp add: ex_extract ex_chunks get_embedding_chunks_def u_def)

subsection \<open>The URL rule of the noise classifier\<close>

text \<open>
  C4 (as amended). For a block that is not a header or footer and whose trimmed text passes
  the earlier rules and contains a URL marker: with fewer than 3 characters among space,
  period, comma and semicolon (the four characters the source counts) the classifier
  returns true; with 3 or more the URL rule does not apply, and the result is that of
  the four later rules.
\<close>

theorem url_rule:
  assumes "bt \<noteq> Header" and "bt \<noteq> Footer"
    and "strip txt \<noteq> []"
    and "\<not> (length (strip txt) \<le> 2 \<and> strip txt \<in> set [u ''.'', u ''..'', u ''-'', [8211], [8212]])"
    and "\<not> isdigit L (strip txt)"
    and "\<not> (re_search L (DATE_PATTERN L) (strip txt) \<and> length (strip txt) < 80)"
    and "\<not> re_search L (COPYRIGHT_PATTERN L) (strip txt)"
    and "re_search L (URL_PATTERN L) (strip txt)"
  shows "separator_count (strip txt) =
           length (filter (\<lambda>c. c = 32 \<or> c = 46 \<or> c = 44 \<or> c = 59) (strip txt)) \<and>
         (separator_count (strip txt) < 3 \<longrightarrow> is_noise_fn L bt txt st) \<and>
         (3 \<le> separator_count (strip txt) \<longrightarrow>
            is_noise_fn L bt txt st =
              ((st \<noteq> [] \<and> str_lower L (strip st) \<in> set ICINDEKILER_MARKERS) \<or>
               (contains icindekiler (str_lower L (strip txt)) \<and> length (strip txt) < 150) \<or>
               (re_match L (TOC_LINE_PATTERN L) (strip txt) \<and> length (strip txt) < 120) \<or>
               (length (strip txt) < 120 \<and>
                list_ex (\<lambda>m. contains m (str_lower L (strip txt))) UI_INSTRUCTION_MARKERS)))"
proof -
  have "separator_count (strip txt) =
          length (filter (\<lambda>c. c = 32 \<or> c = 46 \<or> c = 44 \<or> c = 59) (strip txt))"
    unfolding separator_count_def
    by (rule arg_cong [where f = length], rule filter_cong) (auto simp: u_def)
  then show ?thesis
    using assms unfolding is_noise_fn_def Let_def by auto
qed

text \<open>A bare link, and a host name with three periods.\<close>

lemma bare_link_rules:
  "strip bare_link = bare_link" "bare_link \<noteq> []"
  "\<not> (length bare_link \<le> 2 \<and> bare_link \<in> set [u ''.'', u ''..'', u ''-'', [8211], [8212]])"
  "\<not> isdigit tr_lib bare_link"
  "\<not> (re_search tr_lib (DATE_PATTERN tr_lib) bare_link \<and> length bare_link < 80)"
  "\<not> re_search tr_lib (COPYRIGHT_PATTERN tr_lib) bare_link"
  "re_search tr_lib (URL_PATTERN tr_lib) bare_link"
  "separator_count bare_link = 2"
  by (simp_all add: bare_link_def str_ev rx_ev separator_count_def)

lemma nested_link_rules:
  "strip nested_link = nested_link" "nested_link \<noteq> []"
  "\<not> (length nested_link \<le> 2 \<and> nested_link \<in> set [u ''.'', u ''..'', u ''-'', [8211], [8212]])"
  "\<not> isdigit tr_lib nested_link"
  "\<not> (re_search tr_lib (DATE_PATTERN tr_lib) nested_link \<and> length nested_link < 80)"
  "\<not> re_search tr_lib (COPYRIGHT_PATTERN tr_lib) nested_link"
  "re_search tr_lib (URL_PATTERN tr_lib) nested_link"
  "separator_count nested_link = 3"
  "length (filter (\<lambda>c. c = 32 \<or> c = 44 \<or> c = 59) nested_link) = 0"
  by (simp_all add: nested_link_def str_ev rx_ev separator_count_def)

lemma nested_link_later_rules:
  "\<not> (contains icindekiler (str_lower tr_lib nested_link) \<and> length nested_link < 150)"
  "\<not> (re_match tr_lib (TOC_LINE_PATTERN tr_lib) nested_link \<and> length nested_link < 120)"
  "\<not> (length nested_link < 120 \<and>
      list_ex (\<lambda>m. contains m (str_lower tr_lib nested_link)) UI_INSTRUCTION_MARKERS)"
  by (simp_all add: nested_link_def str_ev rx_ev noise_ev)

theorem url_rule_witness:
  "is_noise_fn tr_lib Paragraph bare_link [] \<and> separator_count (strip bare_link) = 2 \<and>
   \<not> is_noise_fn tr_lib Paragraph nested_link [] \<and> separator_count (strip nested_link) = 3"
proof -
  have a: "is_noise_fn tr_lib Paragraph bare_link []"
    using url_rule [of Paragraph bare_link tr_lib "[]"] bare_link_rules by simp
  have b: "\<not> is_noise_fn tr_lib Paragraph nested_link []"
    using url_rule [of Paragraph nested_link tr_lib "[]"] nested_link_rules nested_link_later_rules
    by simp
  from a b bare_link_rules nested_link_rules show ?thesis by simp
qed

text \<open>
  C4 as stated fails: this text passes the earlier rules, contains a URL marker and has no
  space, comma or semicolon at all, and the classifier returns false, because the three
  periods count as separators.
\<close>

theorem url_rule_counterexample:
  "Paragraph \<noteq> Header \<and> Paragraph \<noteq> Footer \<and> strip nested_link \<noteq> [] \<and>
   \<not> (length (strip nested_link) \<le> 2 \<and>
      strip nested_link \<in> set [u ''.'', u ''..'', u ''-'', [8211], [8212]]) \<and>
   \<not> isdigit tr_lib (strip nested_link) \<and>
   \<not> (re_search tr_lib (DATE_PATTERN tr_lib) (strip nested_link) \<and> length (strip nested_link) < 80) \<and>
   \<not> re_search tr_lib (COPYRIGHT_PATTERN tr_lib) (strip nested_link) \<and>
   re_search tr_lib (URL_PATTERN tr_lib) (strip nested_link) \<and>
   length (filter (\<lambda>c. c = 32 \<or> c = 44 \<or> c = 59) (strip nested_link)) < 3 \<and>
   \<not> is_noise_fn tr_lib Paragraph nested_link []"
proof -
  have "\<not> is_noise_fn tr_lib Paragraph nested_link []"
    using nested_link_rules nested_link_later_rules by (simp add: is_noise_fn_def)
  then show ?thesis
    using nested_link_rules by simp
qed

end
